theory Spec2Isabelle
  imports Main "HOL-Library.AList" "HOL-Library.Sublist" "HOL-Library.Word"
begin

unbundle bit_operations_syntax

section \<open>Errors\<close>

text \<open>
  Every \<open>throw\<close> and every rejected promise of the source is a value of this type.
  \<open>StorageError\<close> stands for any failure of a storage call (connection loss, a value
  the storage client refuses, ...); \<open>NoResponse\<close> is a \<open>fetch\<close> that rejects.
\<close>

datatype error =
    StorageError
  | RecordNotFound
  | UniqueViolation
  | TenantNotFound
  | TenantMissingCredentials
  | HttpError string nat string
  | NoResponse
  | TypeError
  | RangeError

section \<open>Remote API client (src/shopify.ts)\<close>

subsection \<open>The regular expression of \<open>extractNextPageInfo\<close>\<close>

text \<open>
  The pattern \<^verbatim>\<open>/<[^>]*[?&]page_info=([^&>]+)[^>]*>;\s*rel="next"/i\<close> is a sequence of
  single-character atoms, each with a quantifier; one atom is the capture group.
  \<open>rx_match\<close> is the backtracking matcher for such sequences: a greedy quantifier takes
  a character first and gives it back when the rest fails. Its result is the text of the
  capture group of the first successful alternative.
\<close>

datatype quant = One | Star | Plus

record atom =
  a_class :: "char \<Rightarrow> bool"
  a_quant :: quant
  a_captured :: bool

definition keep :: "atom \<Rightarrow> char \<Rightarrow> string \<Rightarrow> string" where
  "keep a x r = (if a_captured a then x # r else r)"

function rx_match :: "atom list \<Rightarrow> string \<Rightarrow> string option" where
  "rx_match [] s = Some []"
| "rx_match (a # as) [] =
     (case a_quant a of
        Star \<Rightarrow> rx_match as []
      | _ \<Rightarrow> None)"
| "rx_match (a # as) (x # xs) =
     (case a_quant a of
        One \<Rightarrow> (if a_class a x then map_option (keep a x) (rx_match as xs) else None)
      | Plus \<Rightarrow>
          (if a_class a x
           then map_option (keep a x) (rx_match (a\<lparr>a_quant := Star\<rparr> # as) xs)
           else None)
      | Star \<Rightarrow>
          (if a_class a x
           then (case rx_match (a # as) xs of
                   Some r \<Rightarrow> Some (keep a x r)
                 | None \<Rightarrow> rx_match as (x # xs))
           else rx_match as (x # xs)))"
  by pat_completeness auto
termination
  by (relation "measure (\<lambda>(as, s). length as + 2 * length s)") auto

text \<open>\<open>String.prototype.match\<close> without the \<open>g\<close> flag: the leftmost position that matches.\<close>

fun rx_search :: "atom list \<Rightarrow> string \<Rightarrow> string option" where
  "rx_search p [] = rx_match p []"
| "rx_search p (x # xs) =
     (case rx_match p (x # xs) of
        Some r \<Rightarrow> Some r
      | None \<Rightarrow> rx_search p xs)"

definition lit :: "char \<Rightarrow> atom" where
  "lit c = \<lparr>a_class = (\<lambda>x. x = c), a_quant = One, a_captured = False\<rparr>"

text \<open>A letter under the \<open>i\<close> flag matches in either case.\<close>

definition lit_ci :: "char \<Rightarrow> char \<Rightarrow> atom" where
  "lit_ci l u = \<lparr>a_class = (\<lambda>x. x = l \<or> x = u), a_quant = One, a_captured = False\<rparr>"

text \<open>
  \<^verbatim>\<open>\s\<close> on the characters a header value can hold (code units below 256): tab, line
  feed, vertical tab, form feed, carriage return, space and the no-break space.
\<close>

definition js_space :: "char \<Rightarrow> bool" where
  "js_space x = (x \<in> set [CHR 0x09, CHR 0x0A, CHR 0x0B, CHR 0x0C, CHR 0x0D, CHR '' '', CHR 0xA0])"

definition next_link_pattern :: "atom list" where
  "next_link_pattern =
     [lit CHR ''<'',
      \<lparr>a_class = (\<lambda>x. x \<noteq> CHR ''>''), a_quant = Star, a_captured = False\<rparr>,
      \<lparr>a_class = (\<lambda>x. x = CHR ''?'' \<or> x = CHR ''&''), a_quant = One, a_captured = False\<rparr>,
      lit_ci CHR ''p'' CHR ''P'', lit_ci CHR ''a'' CHR ''A'', lit_ci CHR ''g'' CHR ''G'',
      lit_ci CHR ''e'' CHR ''E'', lit CHR ''_'', lit_ci CHR ''i'' CHR ''I'',
      lit_ci CHR ''n'' CHR ''N'', lit_ci CHR ''f'' CHR ''F'', lit_ci CHR ''o'' CHR ''O'',
      lit CHR ''='',
      \<lparr>a_class = (\<lambda>x. x \<noteq> CHR ''&'' \<and> x \<noteq> CHR ''>''), a_quant = Plus, a_captured = True\<rparr>,
      \<lparr>a_class = (\<lambda>x. x \<noteq> CHR ''>''), a_quant = Star, a_captured = False\<rparr>,
      lit CHR ''>'', lit CHR '';'',
      \<lparr>a_class = js_space, a_quant = Star, a_captured = False\<rparr>,
      lit_ci CHR ''r'' CHR ''R'', lit_ci CHR ''e'' CHR ''E'', lit_ci CHR ''l'' CHR ''L'',
      lit CHR ''='', lit CHR 0x22,
      lit_ci CHR ''n'' CHR ''N'', lit_ci CHR ''e'' CHR ''E'', lit_ci CHR ''x'' CHR ''X'',
      lit_ci CHR ''t'' CHR ''T'', lit CHR 0x22]"

text \<open>
  \<open>extractNextPageInfo(linkHeader)\<close>: \<open>None\<close> is \<open>undefined\<close>. A header that is \<open>null\<close>
  or the empty string is falsy and gives \<open>undefined\<close> at once.
\<close>

definition extractNextPageInfo :: "string option \<Rightarrow> string option" where
  "extractNextPageInfo linkHeader =
     (case linkHeader of
        None \<Rightarrow> None
      | Some h \<Rightarrow> (if h = [] then None else rx_search next_link_pattern h))"

subsection \<open>\<open>shopifyFetch\<close> and \<open>paginateAll\<close>\<close>

text \<open>
  A request is the path and the query parameters that \<open>shopifyFetch\<close> writes into the
  URL. A response carries \<open>res.ok\<close>, the status, the text of an error body, the value
  of \<open>body[rootKey]\<close> (\<open>None\<close> when the key is absent or null) and the \<open>link\<close> header.
\<close>

record request =
  rq_path :: string
  rq_query :: "(string \<times> string) list"

record 'a response =
  rs_ok :: bool
  rs_status :: nat
  rs_text :: string
  rs_items :: "'a list option"
  rs_link :: "string option"

text \<open>
  The remote server is the sequence of responses it will give, one for each request in
  turn; when the sequence is used up, \<open>fetch\<close> rejects. \<open>paginate_loop\<close> is the
  \<open>while (true)\<close> loop of \<open>paginateAll\<close>, with the requests issued so far kept beside
  the accumulated records. \<open>pageInfo\<close> is \<open>None\<close> for \<open>undefined\<close>.
\<close>

definition build_query :: "(string \<times> string) list \<Rightarrow> string option \<Rightarrow> (string \<times> string) list" where
  "build_query extraQuery pageInfo =
     (let query = foldl (\<lambda>q (k, v). AList.update k v q) [(''limit'', ''250'')] extraQuery
      in case pageInfo of
           None \<Rightarrow> query
         | Some t \<Rightarrow> (if t = [] then query else AList.update ''page_info'' t query))"

definition mk_request :: "string \<Rightarrow> (string \<times> string) list \<Rightarrow> string option \<Rightarrow> request" where
  "mk_request path extraQuery pageInfo =
     \<lparr>rq_path = path, rq_query = build_query extraQuery pageInfo\<rparr>"

text \<open>\<open>body[rootKey] ?? []\<close>\<close>

definition items_of :: "'a response \<Rightarrow> 'a list" where
  "items_of res = (case rs_items res of None \<Rightarrow> [] | Some xs \<Rightarrow> xs)"

fun paginate_loop ::
  "string \<Rightarrow> (string \<times> string) list \<Rightarrow> 'a response list \<Rightarrow> string option \<Rightarrow> 'a list \<Rightarrow>
   request list \<Rightarrow> (error + 'a list) \<times> request list" where
  "paginate_loop path extraQuery [] pageInfo all_items sent =
     (Inl NoResponse, sent @ [mk_request path extraQuery pageInfo])"
| "paginate_loop path extraQuery (res # server) pageInfo all_items sent =
     (let sent' = sent @ [mk_request path extraQuery pageInfo]
      in if \<not> rs_ok res then (Inl (HttpError path (rs_status res) (rs_text res)), sent')
         else
           (let all_items' = all_items @ items_of res
            in case extractNextPageInfo (rs_link res) of
                 None \<Rightarrow> (Inr all_items', sent')
               | Some next \<Rightarrow>
                   (if next = [] then (Inr all_items', sent')
                    else paginate_loop path extraQuery server (Some next) all_items' sent')))"

definition paginateAll ::
  "string \<Rightarrow> (string \<times> string) list \<Rightarrow> 'a response list \<Rightarrow> (error + 'a list) \<times> request list" where
  "paginateAll path extraQuery server = paginate_loop path extraQuery server None [] []"


section \<open>JavaScript values\<close>

text \<open>
  The values the code converts with \<open>String(...)\<close> and tests for truthiness: remote
  ids and order numbers. Numbers are integers (remote ids are integers in the safe
  range, printed in decimal).
\<close>

datatype jsval = JUndefined | JNull | JNum int | JStr string

definition digit_char :: "nat \<Rightarrow> char" where
  "digit_char d = ''0123456789'' ! d"

function string_of_nat :: "nat \<Rightarrow> string" where
  "string_of_nat n =
     (if n < 10 then [digit_char n] else string_of_nat (n div 10) @ [digit_char (n mod 10)])"
  by pat_completeness auto
termination
  by (relation "measure id") auto

declare string_of_nat.simps [simp del]

definition js_String :: "jsval \<Rightarrow> string" where
  "js_String v =
     (case v of
        JUndefined \<Rightarrow> ''undefined''
      | JNull \<Rightarrow> ''null''
      | JNum i \<Rightarrow> (if i < 0 then CHR ''-'' # string_of_nat (nat (- i)) else string_of_nat (nat i))
      | JStr s \<Rightarrow> s)"

definition js_truthy :: "jsval \<Rightarrow> bool" where
  "js_truthy v =
     (case v of
        JUndefined \<Rightarrow> False
      | JNull \<Rightarrow> False
      | JNum i \<Rightarrow> i \<noteq> 0
      | JStr s \<Rightarrow> s \<noteq> [])"

text \<open>
  A text field of a remote record is \<open>None\<close> when it is absent or null; the empty
  string is the one falsy text.
\<close>

definition truthy_text :: "string option \<Rightarrow> bool" where
  "truthy_text v = (case v of None \<Rightarrow> False | Some s \<Rightarrow> s \<noteq> [])"

section \<open>Remote records\<close>

text \<open>
  Remote records and webhook payloads are untyped objects in the source; these records
  hold the fields the code reads.
\<close>

record variant =
  v_sku :: "string option"
  v_price :: "string option"

record embedded_customer =
  ec_id :: jsval
  ec_email :: "string option"
  ec_first_name :: "string option"
  ec_last_name :: "string option"
  ec_created_at :: "string option"
  ec_updated_at :: "string option"

record remote =
  r_id :: jsval
  r_title :: "string option"
  r_variants :: "variant list option"
  r_email :: "string option"
  r_first_name :: "string option"
  r_last_name :: "string option"
  r_created_at :: "string option"
  r_updated_at :: "string option"
  r_customer :: "embedded_customer option"
  r_order_number :: jsval
  r_total_price :: "string option"
  r_currency :: "string option"

section \<open>Storage (prisma/migrations/20250909060826_init/migration.sql)\<close>

text \<open>
  The four tables of the migration. A row identifier is an opaque value that the
  storage client generates for a new row; the model draws it from a counter. A
  timestamp is kept as the text it was parsed from, a decimal as its text.
\<close>

type_synonym ident = nat

record tenant_row =
  t_id :: ident
  t_shop :: string
  t_accessToken :: "string option"
  t_webhookSecret :: "string option"

record customer_row =
  c_id :: ident
  c_tenantId :: ident
  c_shopifyCustomerId :: string
  c_email :: "string option"
  c_firstName :: "string option"
  c_lastName :: "string option"
  c_createdAt :: "string option"
  c_updatedAt :: "string option"

record product_row =
  p_id :: ident
  p_tenantId :: ident
  p_shopifyProductId :: string
  p_title :: string
  p_sku :: "string option"
  p_price :: string
  p_createdAt :: "string option"

record order_row =
  o_id :: ident
  o_tenantId :: ident
  o_shopifyOrderId :: string
  o_orderNumber :: "string option"
  o_totalPrice :: string
  o_currency :: "string option"
  o_createdAt :: "string option"
  o_customerId :: "ident option"

text \<open>
  \<open>faults\<close> is the failure schedule of the storage: each storage call takes the head,
  and fails when it is \<open>True\<close>; with the schedule used up no call fails. A call that
  fails changes no table.
\<close>

record store =
  tenants :: "tenant_row list"
  customers :: "customer_row list"
  products :: "product_row list"
  orders :: "order_row list"
  next_id :: ident
  faults :: "bool list"

definition storage_call :: "store \<Rightarrow> bool \<times> store" where
  "storage_call s =
     (case faults s of
        [] \<Rightarrow> (False, s)
      | f # fs \<Rightarrow> (f, s\<lparr>faults := fs\<rparr>))"

subsection \<open>The data of an update or a create\<close>

text \<open>
  A field of the \<open>data\<close>, \<open>update\<close> or \<open>create\<close> object: \<open>Keep\<close> is \<open>undefined\<close> (the
  storage client leaves the column as it is, or at its default \<open>NULL\<close> in a new row),
  \<open>Set v\<close> writes \<open>v\<close> (for a nullable column \<open>Set None\<close> writes \<open>null\<close>).
\<close>

datatype 'a setter = Keep | Set 'a

definition put :: "'a setter \<Rightarrow> 'a \<Rightarrow> 'a" where
  "put f old = (case f of Keep \<Rightarrow> old | Set v \<Rightarrow> v)"

record customer_data =
  cd_email :: "string option setter"
  cd_firstName :: "string option setter"
  cd_lastName :: "string option setter"
  cd_createdAt :: "string option setter"
  cd_updatedAt :: "string option setter"

record product_data =
  pd_title :: "string setter"
  pd_sku :: "string option setter"
  pd_price :: "string setter"
  pd_createdAt :: "string option setter"

record order_data =
  od_orderNumber :: "string option setter"
  od_totalPrice :: "string setter"
  od_currency :: "string option setter"
  od_createdAt :: "string option setter"
  od_customerId :: "ident option setter"

definition update_customer :: "customer_data \<Rightarrow> customer_row \<Rightarrow> customer_row" where
  "update_customer d c =
     c\<lparr>c_email := put (cd_email d) (c_email c),
       c_firstName := put (cd_firstName d) (c_firstName c),
       c_lastName := put (cd_lastName d) (c_lastName c),
       c_createdAt := put (cd_createdAt d) (c_createdAt c),
       c_updatedAt := put (cd_updatedAt d) (c_updatedAt c)\<rparr>"

definition new_customer :: "ident \<Rightarrow> ident \<Rightarrow> string \<Rightarrow> customer_data \<Rightarrow> customer_row" where
  "new_customer i tenantId shopifyCustomerId d =
     \<lparr>c_id = i, c_tenantId = tenantId, c_shopifyCustomerId = shopifyCustomerId,
      c_email = put (cd_email d) None, c_firstName = put (cd_firstName d) None,
      c_lastName = put (cd_lastName d) None, c_createdAt = put (cd_createdAt d) None,
      c_updatedAt = put (cd_updatedAt d) None\<rparr>"

definition update_product :: "product_data \<Rightarrow> product_row \<Rightarrow> product_row" where
  "update_product d p =
     p\<lparr>p_title := put (pd_title d) (p_title p),
       p_sku := put (pd_sku d) (p_sku p),
       p_price := put (pd_price d) (p_price p),
       p_createdAt := put (pd_createdAt d) (p_createdAt p)\<rparr>"

text \<open>\<open>title\<close> and \<open>price\<close> are required columns: a create without one is refused.\<close>

definition new_product :: "ident \<Rightarrow> ident \<Rightarrow> string \<Rightarrow> product_data \<Rightarrow> product_row option" where
  "new_product i tenantId shopifyProductId d =
     (case (pd_title d, pd_price d) of
        (Set title, Set price) \<Rightarrow>
          Some \<lparr>p_id = i, p_tenantId = tenantId, p_shopifyProductId = shopifyProductId,
                p_title = title, p_sku = put (pd_sku d) None, p_price = price,
                p_createdAt = put (pd_createdAt d) None\<rparr>
      | _ \<Rightarrow> None)"

definition update_order :: "order_data \<Rightarrow> order_row \<Rightarrow> order_row" where
  "update_order d ord =
     ord\<lparr>o_orderNumber := put (od_orderNumber d) (o_orderNumber ord),
       o_totalPrice := put (od_totalPrice d) (o_totalPrice ord),
       o_currency := put (od_currency d) (o_currency ord),
       o_createdAt := put (od_createdAt d) (o_createdAt ord),
       o_customerId := put (od_customerId d) (o_customerId ord)\<rparr>"

text \<open>\<open>totalPrice\<close> is a required column.\<close>

definition new_order :: "ident \<Rightarrow> ident \<Rightarrow> string \<Rightarrow> order_data \<Rightarrow> order_row option" where
  "new_order i tenantId shopifyOrderId d =
     (case od_totalPrice d of
        Set amount \<Rightarrow>
          Some \<lparr>o_id = i, o_tenantId = tenantId, o_shopifyOrderId = shopifyOrderId,
                o_orderNumber = put (od_orderNumber d) None, o_totalPrice = amount,
                o_currency = put (od_currency d) None, o_createdAt = put (od_createdAt d) None,
                o_customerId = put (od_customerId d) None\<rparr>
      | Keep \<Rightarrow> None)"

subsection \<open>The storage client\<close>

text \<open>
  Each function is one call of the storage client: it consults the failure schedule,
  and returns its result beside the store it leaves. The \<open>where\<close> of an upsert names
  the compound unique key \<open>(tenantId, remote id)\<close> of the table.
\<close>

definition is_customer :: "ident \<Rightarrow> string \<Rightarrow> customer_row \<Rightarrow> bool" where
  "is_customer tenantId shopifyCustomerId c =
     (c_tenantId c = tenantId \<and> c_shopifyCustomerId c = shopifyCustomerId)"

definition is_product :: "ident \<Rightarrow> string \<Rightarrow> product_row \<Rightarrow> bool" where
  "is_product tenantId shopifyProductId p =
     (p_tenantId p = tenantId \<and> p_shopifyProductId p = shopifyProductId)"

definition is_order :: "ident \<Rightarrow> string \<Rightarrow> order_row \<Rightarrow> bool" where
  "is_order tenantId shopifyOrderId ord =
     (o_tenantId ord = tenantId \<and> o_shopifyOrderId ord = shopifyOrderId)"

definition tenant_findUnique_id :: "ident \<Rightarrow> store \<Rightarrow> (error + tenant_row option) \<times> store" where
  "tenant_findUnique_id tenantId s =
     (case storage_call s of
        (True, s1) \<Rightarrow> (Inl StorageError, s1)
      | (False, s1) \<Rightarrow> (Inr (find (\<lambda>t. t_id t = tenantId) (tenants s1)), s1))"

definition tenant_findUnique_shop :: "string \<Rightarrow> store \<Rightarrow> (error + tenant_row option) \<times> store" where
  "tenant_findUnique_shop shop s =
     (case storage_call s of
        (True, s1) \<Rightarrow> (Inl StorageError, s1)
      | (False, s1) \<Rightarrow> (Inr (find (\<lambda>t. t_shop t = shop) (tenants s1)), s1))"

definition customer_upsert ::
  "ident \<Rightarrow> string \<Rightarrow> customer_data \<Rightarrow> customer_data \<Rightarrow> store \<Rightarrow> (error + customer_row) \<times> store" where
  "customer_upsert tenantId shopifyCustomerId upd crt s =
     (case storage_call s of
        (True, s1) \<Rightarrow> (Inl StorageError, s1)
      | (False, s1) \<Rightarrow>
          (case find (is_customer tenantId shopifyCustomerId) (customers s1) of
             Some old \<Rightarrow>
               (Inr (update_customer upd old),
                s1\<lparr>customers :=
                     map (\<lambda>c. if is_customer tenantId shopifyCustomerId c
                               then update_customer upd c else c) (customers s1)\<rparr>)
           | None \<Rightarrow>
               (let row = new_customer (next_id s1) tenantId shopifyCustomerId crt
                in (Inr row,
                    s1\<lparr>customers := customers s1 @ [row], next_id := Suc (next_id s1)\<rparr>))))"

definition customer_findFirst ::
  "ident \<Rightarrow> string \<Rightarrow> store \<Rightarrow> (error + customer_row option) \<times> store" where
  "customer_findFirst tenantId shopifyCustomerId s =
     (case storage_call s of
        (True, s1) \<Rightarrow> (Inl StorageError, s1)
      | (False, s1) \<Rightarrow> (Inr (find (is_customer tenantId shopifyCustomerId) (customers s1)), s1))"

text \<open>\<open>update({ where: { id }, data })\<close>: the row must exist.\<close>

definition customer_update ::
  "ident \<Rightarrow> customer_data \<Rightarrow> store \<Rightarrow> (error + customer_row) \<times> store" where
  "customer_update i d s =
     (case storage_call s of
        (True, s1) \<Rightarrow> (Inl StorageError, s1)
      | (False, s1) \<Rightarrow>
          (case find (\<lambda>c. c_id c = i) (customers s1) of
             None \<Rightarrow> (Inl RecordNotFound, s1)
           | Some old \<Rightarrow>
               (Inr (update_customer d old),
                s1\<lparr>customers :=
                     map (\<lambda>c. if c_id c = i then update_customer d c else c) (customers s1)\<rparr>)))"

text \<open>\<open>create({ data })\<close>: the unique index refuses a second row for the key.\<close>

definition customer_create ::
  "ident \<Rightarrow> string \<Rightarrow> customer_data \<Rightarrow> store \<Rightarrow> (error + customer_row) \<times> store" where
  "customer_create tenantId shopifyCustomerId d s =
     (case storage_call s of
        (True, s1) \<Rightarrow> (Inl StorageError, s1)
      | (False, s1) \<Rightarrow>
          (case find (is_customer tenantId shopifyCustomerId) (customers s1) of
             Some _ \<Rightarrow> (Inl UniqueViolation, s1)
           | None \<Rightarrow>
               (let row = new_customer (next_id s1) tenantId shopifyCustomerId d
                in (Inr row,
                    s1\<lparr>customers := customers s1 @ [row], next_id := Suc (next_id s1)\<rparr>))))"

text \<open>
  The \<open>findMany\<close> of the backfill pass: the rows of the tenant with no first name or
  no email, at most \<open>take\<close> of them.
\<close>

definition customer_findMany_missing ::
  "ident \<Rightarrow> nat \<Rightarrow> store \<Rightarrow> (error + customer_row list) \<times> store" where
  "customer_findMany_missing tenantId n s =
     (case storage_call s of
        (True, s1) \<Rightarrow> (Inl StorageError, s1)
      | (False, s1) \<Rightarrow>
          (Inr (take n (filter (\<lambda>c. c_tenantId c = tenantId \<and> (c_firstName c = None \<or> c_email c = None))
                          (customers s1))), s1))"

definition product_upsert ::
  "ident \<Rightarrow> string \<Rightarrow> product_data \<Rightarrow> product_data \<Rightarrow> store \<Rightarrow> (error + product_row) \<times> store" where
  "product_upsert tenantId shopifyProductId upd crt s =
     (case storage_call s of
        (True, s1) \<Rightarrow> (Inl StorageError, s1)
      | (False, s1) \<Rightarrow>
          (case find (is_product tenantId shopifyProductId) (products s1) of
             Some old \<Rightarrow>
               (Inr (update_product upd old),
                s1\<lparr>products :=
                     map (\<lambda>p. if is_product tenantId shopifyProductId p
                               then update_product upd p else p) (products s1)\<rparr>)
           | None \<Rightarrow>
               (case new_product (next_id s1) tenantId shopifyProductId crt of
                  None \<Rightarrow> (Inl StorageError, s1)
                | Some row \<Rightarrow>
                    (Inr row,
                     s1\<lparr>products := products s1 @ [row], next_id := Suc (next_id s1)\<rparr>))))"

definition order_upsert ::
  "ident \<Rightarrow> string \<Rightarrow> order_data \<Rightarrow> order_data \<Rightarrow> store \<Rightarrow> (error + order_row) \<times> store" where
  "order_upsert tenantId shopifyOrderId upd crt s =
     (case storage_call s of
        (True, s1) \<Rightarrow> (Inl StorageError, s1)
      | (False, s1) \<Rightarrow>
          (case find (is_order tenantId shopifyOrderId) (orders s1) of
             Some old \<Rightarrow>
               (Inr (update_order upd old),
                s1\<lparr>orders :=
                     map (\<lambda>ord. if is_order tenantId shopifyOrderId ord
                                 then update_order upd ord else ord) (orders s1)\<rparr>)
           | None \<Rightarrow>
               (case new_order (next_id s1) tenantId shopifyOrderId crt of
                  None \<Rightarrow> (Inl StorageError, s1)
                | Some row \<Rightarrow>
                    (Inr row,
                     s1\<lparr>orders := orders s1 @ [row], next_id := Suc (next_id s1)\<rparr>))))"

text \<open>The object \<open>{}\<close>: every field absent.\<close>

definition empty_object :: remote where
  "empty_object =
     \<lparr>r_id = JUndefined, r_title = None, r_variants = None, r_email = None, r_first_name = None,
      r_last_name = None, r_created_at = None, r_updated_at = None, r_customer = None,
      r_order_number = JUndefined, r_total_price = None, r_currency = None\<rparr>"

section \<open>Webhook authentication (dist/webhooks.js, \<open>verifyHmac\<close>)\<close>

subsection \<open>SHA-256, HMAC and base64\<close>

text \<open>
  The primitives behind \<open>crypto.createHmac("sha256", secret).update(data).digest("base64")\<close>:
  SHA-256 (FIPS 180-4), HMAC (RFC 2104) and base64 with padding (RFC 4648). A byte
  string is a \<open>string\<close>, one \<open>char\<close> for each byte; a JavaScript string is held as its
  UTF-8 bytes, so \<open>Buffer.from(s, "utf8")\<close> is the identity.
\<close>

text \<open>The round constants, eight to a row.\<close>

definition K256 :: "32 word list" where
  "K256 = concat
    [[0x428a2f98, 0x71374491, 0xb5c0fbcf, 0xe9b5dba5, 0x3956c25b, 0x59f111f1, 0x923f82a4, 0xab1c5ed5],
     [0xd807aa98, 0x12835b01, 0x243185be, 0x550c7dc3, 0x72be5d74, 0x80deb1fe, 0x9bdc06a7, 0xc19bf174],
     [0xe49b69c1, 0xefbe4786, 0x0fc19dc6, 0x240ca1cc, 0x2de92c6f, 0x4a7484aa, 0x5cb0a9dc, 0x76f988da],
     [0x983e5152, 0xa831c66d, 0xb00327c8, 0xbf597fc7, 0xc6e00bf3, 0xd5a79147, 0x06ca6351, 0x14292967],
     [0x27b70a85, 0x2e1b2138, 0x4d2c6dfc, 0x53380d13, 0x650a7354, 0x766a0abb, 0x81c2c92e, 0x92722c85],
     [0xa2bfe8a1, 0xa81a664b, 0xc24b8b70, 0xc76c51a3, 0xd192e819, 0xd6990624, 0xf40e3585, 0x106aa070],
     [0x19a4c116, 0x1e376c08, 0x2748774c, 0x34b0bcb5, 0x391c0cb3, 0x4ed8aa4a, 0x5b9cca4f, 0x682e6ff3],
     [0x748f82ee, 0x78a5636f, 0x84c87814, 0x8cc70208, 0x90befffa, 0xa4506ceb, 0xbef9a3f7, 0xc67178f2]]"

type_synonym sha_state =
  "32 word \<times> 32 word \<times> 32 word \<times> 32 word \<times> 32 word \<times> 32 word \<times> 32 word \<times> 32 word"

definition H256 :: sha_state where
  "H256 = (0x6a09e667, 0xbb67ae85, 0x3c6ef372, 0xa54ff53a,
           0x510e527f, 0x9b05688c, 0x1f83d9ab, 0x5be0cd19)"

definition sha_ch :: "32 word \<Rightarrow> 32 word \<Rightarrow> 32 word \<Rightarrow> 32 word" where
  "sha_ch x y z = (x AND y) XOR (NOT x AND z)"

definition sha_maj :: "32 word \<Rightarrow> 32 word \<Rightarrow> 32 word \<Rightarrow> 32 word" where
  "sha_maj x y z = (x AND y) XOR (x AND z) XOR (y AND z)"

definition big_sigma0 :: "32 word \<Rightarrow> 32 word" where
  "big_sigma0 x = word_rotr 2 x XOR word_rotr 13 x XOR word_rotr 22 x"

definition big_sigma1 :: "32 word \<Rightarrow> 32 word" where
  "big_sigma1 x = word_rotr 6 x XOR word_rotr 11 x XOR word_rotr 25 x"

definition small_sigma0 :: "32 word \<Rightarrow> 32 word" where
  "small_sigma0 x = word_rotr 7 x XOR word_rotr 18 x XOR drop_bit 3 x"

definition small_sigma1 :: "32 word \<Rightarrow> 32 word" where
  "small_sigma1 x = word_rotr 17 x XOR word_rotr 19 x XOR drop_bit 10 x"

definition be32 :: "string \<Rightarrow> 32 word" where
  "be32 bs = foldl (\<lambda>w b. push_bit 8 w + of_char b) 0 bs"

definition bytes_of_word32 :: "32 word \<Rightarrow> string" where
  "bytes_of_word32 w =
     [char_of (unat (drop_bit 24 w)), char_of (unat (drop_bit 16 w)),
      char_of (unat (drop_bit 8 w)), char_of (unat w)]"

definition sha_pad :: "string \<Rightarrow> string" where
  "sha_pad m =
     m @ [CHR 0x80] @ replicate ((119 - length m mod 64) mod 64) (CHR 0x00)
       @ map (\<lambda>i. char_of (drop_bit (8 * i) (8 * length m))) [7, 6, 5, 4, 3, 2, 1, 0]"

function chunks :: "nat \<Rightarrow> 'a list \<Rightarrow> 'a list list" where
  "chunks n xs = (if n = 0 \<or> xs = [] then [] else take n xs # chunks n (drop n xs))"
  by pat_completeness auto
termination
  by (relation "measure (\<lambda>(n, xs). length xs)") auto

declare chunks.simps [simp del]

fun sha_extend :: "nat \<Rightarrow> 32 word list \<Rightarrow> 32 word list" where
  "sha_extend 0 w = w"
| "sha_extend (Suc n) w =
     sha_extend n
       (w @ [small_sigma1 (w ! (length w - 2)) + w ! (length w - 7)
             + small_sigma0 (w ! (length w - 15)) + w ! (length w - 16)])"

definition sha_schedule :: "string \<Rightarrow> 32 word list" where
  "sha_schedule block = sha_extend 48 (map be32 (chunks 4 block))"

definition sha_round :: "sha_state \<Rightarrow> 32 word \<times> 32 word \<Rightarrow> sha_state" where
  "sha_round st kw =
     (case st of (a, b, c, d, e, f, g, h) \<Rightarrow>
        (let t1 = h + big_sigma1 e + sha_ch e f g + fst kw + snd kw;
             t2 = big_sigma0 a + sha_maj a b c
         in (t1 + t2, a, b, c, d + t1, e, f, g)))"

definition sha_add :: "sha_state \<Rightarrow> sha_state \<Rightarrow> sha_state" where
  "sha_add x y =
     (case x of (a, b, c, d, e, f, g, h) \<Rightarrow>
        (case y of (a', b', c', d', e', f', g', h') \<Rightarrow>
           (a + a', b + b', c + c', d + d', e + e', f + f', g + g', h + h')))"

definition sha_compress :: "sha_state \<Rightarrow> string \<Rightarrow> sha_state" where
  "sha_compress st block = sha_add st (foldl sha_round st (zip K256 (sha_schedule block)))"

definition sha256 :: "string \<Rightarrow> string" where
  "sha256 m =
     (case foldl sha_compress H256 (chunks 64 (sha_pad m)) of
        (a, b, c, d, e, f, g, h) \<Rightarrow> concat (map bytes_of_word32 [a, b, c, d, e, f, g, h]))"

text \<open>The key of an HMAC: hashed when longer than a block, then filled with zero bytes.\<close>

definition hmac_key :: "string \<Rightarrow> string" where
  "hmac_key key =
     (let k = (if length key > 64 then sha256 key else key)
      in k @ replicate (64 - length k) (CHR 0x00))"

definition xor_bytes :: "nat \<Rightarrow> string \<Rightarrow> string" where
  "xor_bytes pad bs = map (\<lambda>b. char_of ((of_char b :: nat) XOR pad)) bs"

definition hmac_sha256 :: "string \<Rightarrow> string \<Rightarrow> string" where
  "hmac_sha256 key m =
     sha256 (xor_bytes 0x5c (hmac_key key) @ sha256 (xor_bytes 0x36 (hmac_key key) @ m))"

definition base64_alphabet :: string where
  "base64_alphabet = ''ABCDEFGHIJKLMNOPQRSTUVWXYZabcdefghijklmnopqrstuvwxyz0123456789+/''"

definition b64 :: "nat \<Rightarrow> char" where
  "b64 n = base64_alphabet ! n"

fun base64 :: "string \<Rightarrow> string" where
  "base64 [] = []"
| "base64 [a] =
     (let x = (of_char a :: nat)
      in [b64 (x div 4), b64 (x mod 4 * 16), CHR ''='', CHR ''=''])"
| "base64 [a, b] =
     (let x = (of_char a :: nat); y = (of_char b :: nat)
      in [b64 (x div 4), b64 (x mod 4 * 16 + y div 16), b64 (y mod 16 * 4), CHR ''=''])"
| "base64 (a # b # c # rest) =
     (let x = (of_char a :: nat); y = (of_char b :: nat); z = (of_char c :: nat)
      in [b64 (x div 4), b64 (x mod 4 * 16 + y div 16), b64 (y mod 16 * 4 + z div 64), b64 (z mod 64)]
         @ base64 rest)"

subsection \<open>\<open>verifyHmac\<close>\<close>

text \<open>
  The first argument of \<open>verifyHmac\<close>: a \<open>Buffer\<close>, a string, or any other value. Of
  another value the function uses \<open>JSON.stringify\<close> only: \<open>Other (Some t)\<close> is a value
  that serialises to the text \<open>t\<close>, \<open>Other None\<close> one for which \<open>JSON.stringify\<close> throws
  or yields \<open>undefined\<close> (and \<open>Buffer.from\<close> throws in turn).
\<close>

datatype raw_body = Buffer string | JsString string | Other "string option"

text \<open>\<open>crypto.timingSafeEqual\<close> throws when the two buffers differ in length.\<close>

definition timingSafeEqual :: "string \<Rightarrow> string \<Rightarrow> error + bool" where
  "timingSafeEqual a b = (if length a \<noteq> length b then Inl RangeError else Inr (a = b))"

definition hmac_compare :: "string \<Rightarrow> string \<Rightarrow> string \<Rightarrow> bool" where
  "hmac_compare dataBuf hmacHeader secret =
     (let computed = base64 (hmac_sha256 secret dataBuf)
      in case timingSafeEqual computed hmacHeader of
           Inl err \<Rightarrow> False
         | Inr eq \<Rightarrow> eq)"

definition verifyHmac :: "raw_body \<Rightarrow> string \<Rightarrow> string \<Rightarrow> bool" where
  "verifyHmac rawBody hmacHeader secret =
     (if hmacHeader = [] then False
      else case rawBody of
             Buffer b \<Rightarrow> hmac_compare b hmacHeader secret
           | JsString str \<Rightarrow> hmac_compare str hmacHeader secret
           | Other None \<Rightarrow> False
           | Other (Some text) \<Rightarrow> hmac_compare text hmacHeader secret)"

section \<open>Reconciliation and the sync engine (dist/sync.js)\<close>

record ShopifyClient =
  cl_shop :: string
  cl_accessToken :: string
  cl_apiVersion :: "string option"

definition API_VERSION :: string where
  "API_VERSION = ''2025-04''"

definition makeClient :: "string \<Rightarrow> string \<Rightarrow> ShopifyClient" where
  "makeClient shop accessToken =
     \<lparr>cl_shop = shop, cl_accessToken = accessToken, cl_apiVersion = Some API_VERSION\<rparr>"

text \<open>
  The remote API as one full sync sees it: the responses to the page requests of the
  three collections.
\<close>

record remote_api =
  api_products :: "remote response list"
  api_customers :: "remote response list"
  api_orders :: "remote response list"

definition fetchAllProducts :: "ShopifyClient \<Rightarrow> remote_api \<Rightarrow> (error + remote list) \<times> request list" where
  "fetchAllProducts client api = paginateAll ''products'' [] (api_products api)"

definition fetchAllCustomers :: "ShopifyClient \<Rightarrow> remote_api \<Rightarrow> (error + remote list) \<times> request list" where
  "fetchAllCustomers client api = paginateAll ''customers'' [] (api_customers api)"

definition fetchAllOrders :: "ShopifyClient \<Rightarrow> remote_api \<Rightarrow> (error + remote list) \<times> request list" where
  "fetchAllOrders client api = paginateAll ''orders'' [(''status'', ''any'')] (api_orders api)"

text \<open>
  The properties of the object that \<open>makeClient\<close> builds, by name: \<open>shop\<close>,
  \<open>accessToken\<close> and \<open>apiVersion\<close>, all strings; any other name is \<open>undefined\<close>
  (\<open>None\<close>).
\<close>

definition client_property :: "ShopifyClient \<Rightarrow> string \<Rightarrow> string option" where
  "client_property client name =
     (if name = ''shop'' then Some (cl_shop client)
      else if name = ''accessToken'' then Some (cl_accessToken client)
      else if name = ''apiVersion'' then cl_apiVersion client
      else None)"

text \<open>
  \<open>client.get(url)\<close> in \<open>fetchShopifyCustomerById\<close>: the call of a property that is
  \<open>undefined\<close>, or a string, throws a \<open>TypeError\<close> (not a function); no request is
  made.
\<close>

definition client_get :: "ShopifyClient \<Rightarrow> string \<Rightarrow> error + remote option" where
  "client_get client url =
     (case client_property client ''get'' of
        None \<Rightarrow> Inl TypeError
      | Some not_a_function \<Rightarrow> Inl TypeError)"

text \<open>
  The \<open>catch\<close> of \<open>fetchShopifyCustomerById\<close> returns \<open>null\<close> for every error (it logs
  those that carry a response status other than 404).
\<close>

definition fetchShopifyCustomerById :: "ShopifyClient \<Rightarrow> string \<Rightarrow> remote option" where
  "fetchShopifyCustomerById client shopifyCustomerId =
     (case client_get client (''/admin/api/2025-04/customers/'' @ shopifyCustomerId @ ''.json'') of
        Inr customer \<Rightarrow> customer
      | Inl err \<Rightarrow> None)"

subsection \<open>The mapping of one remote record\<close>

text \<open>\<open>x ? new Date(x) : undefined\<close>\<close>

definition date_field :: "string option \<Rightarrow> string option setter" where
  "date_field v = (if truthy_text v then Set v else Keep)"

text \<open>\<open>x ?? undefined\<close>\<close>

definition keep_absent :: "'a option \<Rightarrow> 'a option setter" where
  "keep_absent v = (case v of None \<Rightarrow> Keep | Some x \<Rightarrow> Set (Some x))"

text \<open>\<open>x ?? d\<close>\<close>

definition or_default :: "'a option \<Rightarrow> 'a \<Rightarrow> 'a" where
  "or_default v d = (case v of None \<Rightarrow> d | Some x \<Rightarrow> x)"

definition first_variant :: "remote \<Rightarrow> variant option" where
  "first_variant p = (case r_variants p of Some (v # _) \<Rightarrow> Some v | _ \<Rightarrow> None)"

definition variant_sku :: "remote \<Rightarrow> string option" where
  "variant_sku p =
     (case first_variant p of
        Some v \<Rightarrow> (if truthy_text (v_sku v) then v_sku v else None)
      | None \<Rightarrow> None)"

definition variant_price :: "remote \<Rightarrow> string" where
  "variant_price p =
     (case first_variant p of
        Some v \<Rightarrow> (if truthy_text (v_price v) then or_default (v_price v) ''0.00'' else ''0.00'')
      | None \<Rightarrow> ''0.00'')"

definition sync_product_data :: "remote \<Rightarrow> product_data" where
  "sync_product_data p =
     \<lparr>pd_title = Set (or_default (r_title p) ''Untitled''),
      pd_sku = Set (variant_sku p),
      pd_price = Set (variant_price p),
      pd_createdAt = date_field (r_created_at p)\<rparr>"

definition sync_customer_data :: "remote \<Rightarrow> customer_data" where
  "sync_customer_data c =
     \<lparr>cd_email = Set (r_email c),
      cd_firstName = Set (r_first_name c),
      cd_lastName = Set (r_last_name c),
      cd_createdAt = date_field (r_created_at c),
      cd_updatedAt = date_field (r_updated_at c)\<rparr>"

definition order_data_of :: "remote \<Rightarrow> ident option \<Rightarrow> order_data" where
  "order_data_of ord customerId =
     \<lparr>od_orderNumber =
        (if js_truthy (r_order_number ord) then Set (Some (js_String (r_order_number ord))) else Keep),
      od_totalPrice = Set (or_default (r_total_price ord) ''0.00''),
      od_currency = keep_absent (r_currency ord),
      od_createdAt = date_field (r_created_at ord),
      od_customerId = keep_absent customerId\<rparr>"

subsection \<open>One record of each loop of \<open>fullSync\<close>\<close>

text \<open>
  The body of each \<open>for\<close> loop: the \<open>try\<close> with its \<open>catch\<close>, which logs and goes on.
  The Boolean says whether the record was counted.
\<close>

definition sync_product :: "ident \<Rightarrow> remote \<Rightarrow> store \<Rightarrow> bool \<times> store" where
  "sync_product tenantId p s =
     (case product_upsert tenantId (js_String (r_id p)) (sync_product_data p) (sync_product_data p) s of
        (Inr _, s1) \<Rightarrow> (True, s1)
      | (Inl e, s1) \<Rightarrow> (False, s1))"

text \<open>The inner \<open>catch\<close> of the customer loop: look the row up, then update or create it.\<close>

definition customer_fallback :: "ident \<Rightarrow> string \<Rightarrow> customer_data \<Rightarrow> store \<Rightarrow> bool \<times> store" where
  "customer_fallback tenantId shopifyCustomerId d s =
     (case customer_findFirst tenantId shopifyCustomerId s of
        (Inl e, s1) \<Rightarrow> (False, s1)
      | (Inr (Some existing), s1) \<Rightarrow>
          (case customer_update (c_id existing) d s1 of
             (Inr _, s2) \<Rightarrow> (True, s2)
           | (Inl e, s2) \<Rightarrow> (False, s2))
      | (Inr None, s1) \<Rightarrow>
          (case customer_create tenantId shopifyCustomerId d s1 of
             (Inr _, s2) \<Rightarrow> (True, s2)
           | (Inl e, s2) \<Rightarrow> (False, s2)))"

definition sync_customer :: "ident \<Rightarrow> remote \<Rightarrow> store \<Rightarrow> bool \<times> store" where
  "sync_customer tenantId c s =
     (case customer_upsert tenantId (js_String (r_id c)) (sync_customer_data c) (sync_customer_data c) s of
        (Inr _, s1) \<Rightarrow> (True, s1)
      | (Inl err, s1) \<Rightarrow> customer_fallback tenantId (js_String (r_id c)) (sync_customer_data c) s1)"

text \<open>
  \<open>if (o.customer?.id) { existing = findFirst({ tenantId, shopifyCustomerId }); customerId = existing?.id }\<close>
\<close>

definition resolve_customer :: "ident \<Rightarrow> remote \<Rightarrow> store \<Rightarrow> (error + ident option) \<times> store" where
  "resolve_customer tenantId ord s =
     (case r_customer ord of
        None \<Rightarrow> (Inr None, s)
      | Some ec \<Rightarrow>
          (if js_truthy (ec_id ec)
           then (case customer_findFirst tenantId (js_String (ec_id ec)) s of
                   (Inl e, s1) \<Rightarrow> (Inl e, s1)
                 | (Inr existing, s1) \<Rightarrow> (Inr (map_option c_id existing), s1))
           else (Inr None, s)))"

definition sync_order :: "ident \<Rightarrow> remote \<Rightarrow> store \<Rightarrow> bool \<times> store" where
  "sync_order tenantId ord s =
     (case resolve_customer tenantId ord s of
        (Inl e, s1) \<Rightarrow> (False, s1)
      | (Inr customerId, s1) \<Rightarrow>
          (case order_upsert tenantId (js_String (r_id ord)) (order_data_of ord customerId)
                  (order_data_of ord customerId) s1 of
             (Inr _, s2) \<Rightarrow> (True, s2)
           | (Inl e, s2) \<Rightarrow> (False, s2)))"

fun sync_all :: "('a \<Rightarrow> store \<Rightarrow> bool \<times> store) \<Rightarrow> 'a list \<Rightarrow> nat \<Rightarrow> store \<Rightarrow> nat \<times> store" where
  "sync_all step [] n s = (n, s)"
| "sync_all step (x # xs) n s =
     (case step x s of (counted, s1) \<Rightarrow> sync_all step xs (if counted then Suc n else n) s1)"

subsection \<open>The backfill pass\<close>

text \<open>A field of \<open>updateData\<close>: set when the remote value is truthy and differs from the row's.\<close>

definition changed_field :: "string option \<Rightarrow> string option \<Rightarrow> string option setter" where
  "changed_field remote_value row_value =
     (if truthy_text remote_value \<and> remote_value \<noteq> row_value then Set remote_value else Keep)"

definition backfill_data :: "remote \<Rightarrow> customer_row \<Rightarrow> customer_data" where
  "backfill_data shopifyCustomer row =
     \<lparr>cd_email = changed_field (r_email shopifyCustomer) (c_email row),
      cd_firstName = changed_field (r_first_name shopifyCustomer) (c_firstName row),
      cd_lastName = changed_field (r_last_name shopifyCustomer) (c_lastName row),
      cd_createdAt = Keep,
      cd_updatedAt = date_field (r_updated_at shopifyCustomer)\<rparr>"

text \<open>\<open>Object.keys(updateData).length > 0\<close>, tested before \<open>updatedAt\<close> is added.\<close>

definition has_changes :: "customer_data \<Rightarrow> bool" where
  "has_changes d = (cd_email d \<noteq> Keep \<or> cd_firstName d \<noteq> Keep \<or> cd_lastName d \<noteq> Keep)"

definition backfill_row :: "ShopifyClient \<Rightarrow> customer_row \<Rightarrow> store \<Rightarrow> bool \<times> store" where
  "backfill_row client row s =
     (if c_shopifyCustomerId row = [] then (False, s)
      else case fetchShopifyCustomerById client (c_shopifyCustomerId row) of
             None \<Rightarrow> (False, s)
           | Some shopifyCustomer \<Rightarrow>
               (if has_changes (backfill_data shopifyCustomer row)
                then (case customer_update (c_id row) (backfill_data shopifyCustomer row) s of
                        (Inr _, s1) \<Rightarrow> (True, s1)
                      | (Inl e, s1) \<Rightarrow> (False, s1))
                else (False, s)))"

subsection \<open>\<open>fullSync\<close>\<close>

record sync_counts =
  sc_products :: nat
  sc_customers :: nat
  sc_orders :: nat
  sc_backfilled :: nat

text \<open>
  The steps after the tenant is resolved. An error of a collection pull or of the
  \<open>findMany\<close> of the backfill pass is thrown to the caller; what was stored before it
  stays stored.
\<close>

definition backfill_pass ::
  "ident \<Rightarrow> ShopifyClient \<Rightarrow> nat \<Rightarrow> nat \<Rightarrow> nat \<Rightarrow> store \<Rightarrow> (error + sync_counts) \<times> store" where
  "backfill_pass tenantId client productCount customerCount orderCount s =
     (case customer_findMany_missing tenantId 1000 s of
        (Inl e, s1) \<Rightarrow> (Inl e, s1)
      | (Inr missing, s1) \<Rightarrow>
          (case sync_all (backfill_row client) missing 0 s1 of
             (backfilled, s2) \<Rightarrow>
               (Inr \<lparr>sc_products = productCount, sc_customers = customerCount,
                      sc_orders = orderCount, sc_backfilled = backfilled\<rparr>, s2)))"

definition sync_collections ::
  "ident \<Rightarrow> ShopifyClient \<Rightarrow> remote_api \<Rightarrow> store \<Rightarrow> (error + sync_counts) \<times> store" where
  "sync_collections tenantId client api s =
     (case fst (fetchAllProducts client api) of
        Inl e \<Rightarrow> (Inl e, s)
      | Inr remote_products \<Rightarrow>
          (case sync_all (sync_product tenantId) remote_products 0 s of
             (productCount, s1) \<Rightarrow>
               (case fst (fetchAllCustomers client api) of
                  Inl e \<Rightarrow> (Inl e, s1)
                | Inr remote_customers \<Rightarrow>
                    (case sync_all (sync_customer tenantId) remote_customers 0 s1 of
                       (customerCount, s2) \<Rightarrow>
                         (case fst (fetchAllOrders client api) of
                            Inl e \<Rightarrow> (Inl e, s2)
                          | Inr remote_orders \<Rightarrow>
                              (case sync_all (sync_order tenantId) remote_orders 0 s2 of
                                 (orderCount, s3) \<Rightarrow>
                                   backfill_pass tenantId client productCount customerCount
                                     orderCount s3))))))"

definition fullSync :: "ident \<Rightarrow> remote_api \<Rightarrow> store \<Rightarrow> (error + sync_counts) \<times> store" where
  "fullSync tenantId api s =
     (case tenant_findUnique_id tenantId s of
        (Inl e, s0) \<Rightarrow> (Inl e, s0)
      | (Inr None, s0) \<Rightarrow> (Inl TenantNotFound, s0)
      | (Inr (Some tenant), s0) \<Rightarrow>
          (case t_accessToken tenant of
             None \<Rightarrow> (Inl TenantMissingCredentials, s0)
           | Some accessToken \<Rightarrow>
               (if accessToken = [] \<or> t_shop tenant = [] then (Inl TenantMissingCredentials, s0)
                else sync_collections tenantId (makeClient (t_shop tenant) accessToken) api s0)))"

section \<open>The webhook dispatcher (dist/webhooks.js, \<open>processWebhookPayload\<close>)\<close>

definition webhook_customer_update :: "embedded_customer \<Rightarrow> customer_data" where
  "webhook_customer_update c =
     \<lparr>cd_email = keep_absent (ec_email c),
      cd_firstName = keep_absent (ec_first_name c),
      cd_lastName = keep_absent (ec_last_name c),
      cd_createdAt = Keep,
      cd_updatedAt = date_field (ec_updated_at c)\<rparr>"

definition webhook_customer_create :: "embedded_customer \<Rightarrow> customer_data" where
  "webhook_customer_create c =
     \<lparr>cd_email = Set (ec_email c),
      cd_firstName = Set (ec_first_name c),
      cd_lastName = Set (ec_last_name c),
      cd_createdAt = date_field (ec_created_at c),
      cd_updatedAt = date_field (ec_updated_at c)\<rparr>"

text \<open>The customer fields of a \<open>customers/*\<close> payload, read at the top of the payload.\<close>

definition payload_customer :: "remote \<Rightarrow> embedded_customer" where
  "payload_customer payload =
     \<lparr>ec_id = r_id payload, ec_email = r_email payload, ec_first_name = r_first_name payload,
      ec_last_name = r_last_name payload, ec_created_at = r_created_at payload,
      ec_updated_at = r_updated_at payload\<rparr>"

definition webhook_product_update :: "remote \<Rightarrow> product_data" where
  "webhook_product_update payload =
     \<lparr>pd_title = (case r_title payload of None \<Rightarrow> Keep | Some t \<Rightarrow> Set t),
      pd_sku = Set (variant_sku payload),
      pd_price = Set (variant_price payload),
      pd_createdAt = date_field (r_created_at payload)\<rparr>"

text \<open>The \<open>orders/\<close> branch: the embedded customer first, when it has a truthy id.\<close>

definition webhook_order_customer :: "ident \<Rightarrow> remote \<Rightarrow> store \<Rightarrow> (error + ident option) \<times> store" where
  "webhook_order_customer tenantId payload s =
     (case r_customer payload of
        None \<Rightarrow> (Inr None, s)
      | Some ec \<Rightarrow>
          (if js_truthy (ec_id ec)
           then (case customer_upsert tenantId (js_String (ec_id ec)) (webhook_customer_update ec)
                        (webhook_customer_create ec) s of
                   (Inl e, s1) \<Rightarrow> (Inl e, s1)
                 | (Inr cust, s1) \<Rightarrow> (Inr (Some (c_id cust)), s1))
           else (Inr None, s)))"

definition map_result :: "(error + 'a) \<times> store \<Rightarrow> (error + unit) \<times> store" where
  "map_result r = (case r of (Inl e, s) \<Rightarrow> (Inl e, s) | (Inr _, s) \<Rightarrow> (Inr (), s))"

text \<open>
  The body of the \<open>try\<close> of \<open>processWebhookPayload\<close>. The storage schema has no event
  table, so \<open>prisma.event\<close> is \<open>undefined\<close> and the last branch only logs.
\<close>

definition dispatch :: "ident \<Rightarrow> string \<Rightarrow> remote \<Rightarrow> store \<Rightarrow> (error + unit) \<times> store" where
  "dispatch tenantId topic payload s =
     (if prefix ''orders/'' topic then
        (case webhook_order_customer tenantId payload s of
           (Inl e, s1) \<Rightarrow> (Inl e, s1)
         | (Inr customerId, s1) \<Rightarrow>
             map_result (order_upsert tenantId (js_String (r_id payload))
                           (order_data_of payload customerId) (order_data_of payload customerId) s1))
      else if topic = ''customers/create'' \<or> topic = ''customers/update'' then
        map_result (customer_upsert tenantId (js_String (r_id payload))
                      (webhook_customer_update (payload_customer payload))
                      (webhook_customer_create (payload_customer payload)) s)
      else if topic = ''products/create'' \<or> topic = ''products/update'' then
        map_result (product_upsert tenantId (js_String (r_id payload))
                      (webhook_product_update payload) (sync_product_data payload) s)
      else (Inr (), s))"

text \<open>
  \<open>processWebhookPayload\<close>: the tenant is looked up before the \<open>try\<close>, so an error of
  that call is thrown to the caller; the \<open>catch\<close> swallows every error of the \<open>try\<close>.
\<close>

definition processWebhookPayload :: "string \<Rightarrow> string \<Rightarrow> remote \<Rightarrow> store \<Rightarrow> (error + unit) \<times> store" where
  "processWebhookPayload topic shop payload s =
     (case tenant_findUnique_shop shop s of
        (Inl e, s0) \<Rightarrow> (Inl e, s0)
      | (Inr None, s0) \<Rightarrow> (Inr (), s0)
      | (Inr (Some tenant), s0) \<Rightarrow> (Inr (), snd (dispatch (t_id tenant) topic payload s0)))"

section \<open>The webhook endpoint (unnamed/part_000, \<open>POST /api/webhooks/shopify\<close>)\<close>

text \<open>
  \<open>wr_rawBody\<close> is \<open>req.rawBody\<close>: the \<open>verify\<close> hook of the body parser sets it only
  for a body of at least one byte, so it is \<open>None\<close> or a non-empty buffer. The three
  headers are the empty string when absent.
\<close>

record webhook_request =
  wr_rawBody :: "string option"
  wr_hmac :: string
  wr_shop :: string
  wr_topic :: string
  wr_body :: remote

record http_response =
  status :: nat
  body :: string

definition webhook_secret :: "string \<Rightarrow> tenant_row option \<Rightarrow> string" where
  "webhook_secret default_secret tenant =
     (case tenant of
        None \<Rightarrow> default_secret
      | Some t \<Rightarrow> or_default (t_webhookSecret t) default_secret)"

definition webhook_endpoint :: "string \<Rightarrow> webhook_request \<Rightarrow> store \<Rightarrow> http_response \<times> store" where
  "webhook_endpoint DEFAULT_WEBHOOK_SECRET req s =
     (if wr_shop req = [] then (\<lparr>status = 400, body = ''missing shop header''\<rparr>, s)
      else case wr_rawBody req of
             None \<Rightarrow> (\<lparr>status = 400, body = ''missing raw body''\<rparr>, s)
           | Some raw \<Rightarrow>
               (case tenant_findUnique_shop (wr_shop req) s of
                  (Inl e, s1) \<Rightarrow> (\<lparr>status = 500, body = ''error''\<rparr>, s1)
                | (Inr tenant, s1) \<Rightarrow>
                    (if \<not> verifyHmac (Buffer raw) (wr_hmac req)
                            (webhook_secret DEFAULT_WEBHOOK_SECRET tenant)
                     then (\<lparr>status = 401, body = ''invalid hmac''\<rparr>, s1)
                     else (case processWebhookPayload (wr_topic req) (wr_shop req) (wr_body req) s1 of
                             (Inl e, s2) \<Rightarrow> (\<lparr>status = 500, body = ''error''\<rparr>, s2)
                           | (Inr _, s2) \<Rightarrow> (\<lparr>status = 200, body = ''ok''\<rparr>, s2)))))"

section \<open>Integrity of the store\<close>

text \<open>
  The identity of a row: its primary key and its natural key \<open>(tenantId, remote id)\<close>.
\<close>

definition customer_ident :: "customer_row \<Rightarrow> ident \<times> ident \<times> string" where
  "customer_ident c = (c_id c, c_tenantId c, c_shopifyCustomerId c)"

definition product_ident :: "product_row \<Rightarrow> ident \<times> ident \<times> string" where
  "product_ident p = (p_id p, p_tenantId p, p_shopifyProductId p)"

definition order_ident :: "order_row \<Rightarrow> ident \<times> ident \<times> string" where
  "order_ident ord = (o_id ord, o_tenantId ord, o_shopifyOrderId ord)"

text \<open>The primary key of the customer table, with identifiers drawn from the counter.\<close>

definition ids_ok :: "store \<Rightarrow> bool" where
  "ids_ok s =
     (distinct (map c_id (customers s)) \<and> list_all (\<lambda>c. c_id c < next_id s) (customers s))"

text \<open>The three unique indexes on \<open>(tenantId, remote id)\<close>.\<close>

definition keys_unique :: "store \<Rightarrow> bool" where
  "keys_unique s =
     (distinct (map (\<lambda>c. (c_tenantId c, c_shopifyCustomerId c)) (customers s))
      \<and> distinct (map (\<lambda>p. (p_tenantId p, p_shopifyProductId p)) (products s))
      \<and> distinct (map (\<lambda>ord. (o_tenantId ord, o_shopifyOrderId ord)) (orders s)))"

text \<open>
  No cross-tenant reference: the customer an order refers to is a row of the customer
  table, of the order's own tenant.
\<close>

definition ref_ok :: "customer_row list \<Rightarrow> order_row \<Rightarrow> bool" where
  "ref_ok cs ord =
     (case o_customerId ord of
        None \<Rightarrow> True
      | Some i \<Rightarrow> list_ex (\<lambda>c. c_id c = i \<and> c_tenantId c = o_tenantId ord) cs)"

definition refs_same_tenant :: "store \<Rightarrow> bool" where
  "refs_same_tenant s = list_all (ref_ok (customers s)) (orders s)"

definition wf_store :: "store \<Rightarrow> bool" where
  "wf_store s = (ids_ok s \<and> keys_unique s \<and> refs_same_tenant s)"

text \<open>Every row that was there is still there, with its identity.\<close>

definition keys_kept :: "store \<Rightarrow> store \<Rightarrow> bool" where
  "keys_kept s s' =
     (prefix (map customer_ident (customers s)) (map customer_ident (customers s'))
      \<and> prefix (map product_ident (products s)) (map product_ident (products s'))
      \<and> prefix (map order_ident (orders s)) (map order_ident (orders s')))"

text \<open>What a lookup scoped to one tenant can see.\<close>

definition tenant_rows :: "ident \<Rightarrow> store \<Rightarrow> customer_row list \<times> product_row list \<times> order_row list" where
  "tenant_rows t s =
     (filter (\<lambda>c. c_tenantId c = t) (customers s),
      filter (\<lambda>p. p_tenantId p = t) (products s),
      filter (\<lambda>ord. o_tenantId ord = t) (orders s))"

text \<open>
  A run for tenant \<open>t\<close> from \<open>s\<close> to \<open>s'\<close>: the tenant table is the same, the rows keep
  their identity, the rows of every other tenant are the same, and the store is intact.
\<close>

definition evolves :: "ident \<Rightarrow> store \<Rightarrow> store \<Rightarrow> bool" where
  "evolves t s s' =
     (tenants s' = tenants s
      \<and> keys_kept s s'
      \<and> (\<forall>t2. t2 \<noteq> t \<longrightarrow> tenant_rows t2 s' = tenant_rows t2 s)
      \<and> wf_store s')"

text \<open>
  The local customer an order record refers to: the first row of the tenant whose
  remote id is the text of \<open>customer.id\<close>, when that id is truthy.
\<close>

definition customer_ref :: "ident \<Rightarrow> remote \<Rightarrow> customer_row list \<Rightarrow> customer_row option" where
  "customer_ref t ord cs =
     (case r_customer ord of
        None \<Rightarrow> None
      | Some ec \<Rightarrow>
          (if js_truthy (ec_id ec) then find (is_customer t (js_String (ec_id ec))) cs else None))"

section \<open>Example data\<close>

text \<open>
  Two tenants whose remote ids collide: tenant 2 already holds the remote customer
  \<open>100\<close> and an order of that customer; tenant 1 holds nothing yet.
\<close>

definition two_tenant_store :: store where
  "two_tenant_store =
     \<lparr>tenants =
        [\<lparr>t_id = 1, t_shop = ''a.myshopify.com'', t_accessToken = Some ''shpat_a'', t_webhookSecret = None\<rparr>,
         \<lparr>t_id = 2, t_shop = ''b.myshopify.com'', t_accessToken = Some ''shpat_b'', t_webhookSecret = None\<rparr>],
      customers =
        [\<lparr>c_id = 10, c_tenantId = 2, c_shopifyCustomerId = ''100'', c_email = Some ''b@example.com'',
          c_firstName = Some ''Bo'', c_lastName = None, c_createdAt = None, c_updatedAt = None\<rparr>],
      products = [],
      orders =
        [\<lparr>o_id = 11, o_tenantId = 2, o_shopifyOrderId = ''5001'', o_orderNumber = None,
          o_totalPrice = ''10.00'', o_currency = None, o_createdAt = None, o_customerId = Some 10\<rparr>],
      next_id = 12,
      faults = []\<rparr>"

text \<open>The remote customer \<open>100\<close> and the remote order \<open>5001\<close> of the remote customer \<open>77\<close>.\<close>

definition customer_100 :: remote where
  "customer_100 = empty_object\<lparr>r_id := JNum 100, r_email := Some ''a@example.com''\<rparr>"

definition order_5001 :: remote where
  "order_5001 =
     empty_object\<lparr>r_id := JNum 5001, r_total_price := Some ''10.00'',
       r_customer := Some \<lparr>ec_id = JNum 77, ec_email = None, ec_first_name = None,
                            ec_last_name = None, ec_created_at = None, ec_updated_at = None\<rparr>\<rparr>"

text \<open>
  Tenant 1 with the customer \<open>78\<close> and the order \<open>5001\<close>, stored when the order was that
  customer's; the remote customer \<open>77\<close> has no row.
\<close>

definition linked_order_store :: store where
  "linked_order_store =
     \<lparr>tenants =
        [\<lparr>t_id = 1, t_shop = ''a.myshopify.com'', t_accessToken = Some ''shpat_a'', t_webhookSecret = None\<rparr>],
      customers =
        [\<lparr>c_id = 10, c_tenantId = 1, c_shopifyCustomerId = ''78'', c_email = None,
          c_firstName = Some ''Cy'', c_lastName = None, c_createdAt = None, c_updatedAt = None\<rparr>],
      products = [],
      orders =
        [\<lparr>o_id = 11, o_tenantId = 1, o_shopifyOrderId = ''5001'', o_orderNumber = None,
          o_totalPrice = ''10.00'', o_currency = None, o_createdAt = None, o_customerId = Some 10\<rparr>],
      next_id = 12,
      faults = []\<rparr>"

text \<open>A remote API whose three collections are one empty page each.\<close>

definition empty_page :: "remote response" where
  "empty_page = \<lparr>rs_ok = True, rs_status = 200, rs_text = [], rs_items = Some [], rs_link = None\<rparr>"

definition empty_api :: remote_api where
  "empty_api = \<lparr>api_products = [empty_page], api_customers = [empty_page], api_orders = [empty_page]\<rparr>"

text \<open>A webhook for a shop, signed with a secret.\<close>

definition signed_webhook :: "string \<Rightarrow> string \<Rightarrow> string \<Rightarrow> remote \<Rightarrow> webhook_request" where
  "signed_webhook secret shop topic payload =
     \<lparr>wr_rawBody = Some ''{}'', wr_hmac = base64 (hmac_sha256 secret ''{}''), wr_shop = shop,
      wr_topic = topic, wr_body = payload\<rparr>"

section \<open>Pagination\<close>











section \<open>Webhook authentication\<close>


lemma sha256_length: "length (sha256 m) = 32"
  by (simp add: sha256_def bytes_of_word32_def split: prod.splits)

lemma base64_length: "length (base64 bs) = 4 * ((length bs + 2) div 3)"
proof (induction bs rule: base64.induct)
  case (4 a b c rest)
  have "(5 + length rest) div 3 = Suc ((Suc (Suc (length rest))) div 3)" by arith
  with 4 show ?case by (simp add: Let_def)
qed (simp_all add: Let_def)

lemma digest_text_length: "length (base64 (hmac_sha256 secret m)) = 44"
  by (simp add: base64_length hmac_sha256_def sha256_length)

lemma hmac_compare_iff:
  "hmac_compare m hmacHeader secret = (hmacHeader = base64 (hmac_sha256 secret m))"
  by (auto simp: hmac_compare_def timingSafeEqual_def Let_def)

lemma verifyHmac_Buffer_iff:
  "verifyHmac (Buffer b) hmacHeader secret = (hmacHeader = base64 (hmac_sha256 secret b))"
  using digest_text_length[of secret b] by (auto simp: verifyHmac_def hmac_compare_iff)

lemma verifyHmac_JsString_iff:
  "verifyHmac (JsString str) hmacHeader secret = (hmacHeader = base64 (hmac_sha256 secret str))"
  using digest_text_length[of secret str] by (auto simp: verifyHmac_def hmac_compare_iff)

lemma verifyHmac_Other_iff:
  "verifyHmac (Other (Some t)) hmacHeader secret = (hmacHeader = base64 (hmac_sha256 secret t))"
  using digest_text_length[of secret t] by (auto simp: verifyHmac_def hmac_compare_iff)

lemma hmac_key_zero_byte:
  assumes "length key < 64"
  shows "hmac_key (key @ [CHR 0x00]) = hmac_key key"
proof -
  have "64 - length key = Suc (64 - Suc (length key))" using assms by arith
  then have "replicate (64 - length key) (CHR 0x00) = CHR 0x00 # replicate (64 - Suc (length key)) (CHR 0x00)"
    by simp
  then show ?thesis using assms by (simp add: hmac_key_def Let_def)
qed

lemma hmac_sha256_zero_byte:
  "length key < 64 \<Longrightarrow> hmac_sha256 (key @ [CHR 0x00]) m = hmac_sha256 key m"
  by (simp add: hmac_sha256_def hmac_key_zero_byte)

text \<open>
  C2, as stated, fails for "a different secret": HMAC fills a short key with zero bytes,
  so the secret \<open>k\<close> followed by a zero byte verifies every signature made with \<open>k\<close>.
\<close>

theorem verifyHmac_different_secret_counterexample:
  "''k'' @ [CHR 0x00] \<noteq> ''k''
   \<and> verifyHmac (Buffer ''{}'') (base64 (hmac_sha256 ''k'' ''{}'')) (''k'' @ [CHR 0x00])"
  using hmac_sha256_zero_byte[of "''k''" "''{}''"] by (simp add: verifyHmac_Buffer_iff)

text \<open>
  C2, amended. For a body given as a buffer or a string, \<open>verifyHmac\<close> returns true
  exactly when the supplied signature is the base64 text of HMAC-SHA256 of the body
  under the secret. So the signature \<open>base64(HMAC-SHA256(S, B))\<close> verifies, also for the
  empty body; every other signature is rejected, and no input makes the function
  raise. A signature whose length differs from that of the digest text is rejected
  through the error of \<open>timingSafeEqual\<close>, with no comparison of contents. (A changed
  body or another secret is rejected exactly when it changes the digest.)
\<close>

theorem verifyHmac_accepts_exactly_the_digest:
  "verifyHmac (Buffer b) hmacHeader secret = (hmacHeader = base64 (hmac_sha256 secret b))
   \<and> verifyHmac (JsString b) hmacHeader secret = (hmacHeader = base64 (hmac_sha256 secret b))
   \<and> verifyHmac (Buffer []) (base64 (hmac_sha256 secret [])) secret
   \<and> (length hmacHeader \<noteq> length (base64 (hmac_sha256 secret b)) \<longrightarrow>
        timingSafeEqual (base64 (hmac_sha256 secret b)) hmacHeader = Inl RangeError
        \<and> \<not> verifyHmac (Buffer b) hmacHeader secret)"
  by (auto simp: verifyHmac_Buffer_iff verifyHmac_JsString_iff timingSafeEqual_def)

theorem verifyHmac_accepts_exactly_the_digest_witness:
  "verifyHmac (Buffer ''{}'') (base64 (hmac_sha256 ''whsec'' ''{}'')) ''whsec''
   \<and> timingSafeEqual (base64 (hmac_sha256 ''whsec'' ''{}'')) ''AAAA'' = Inl RangeError
   \<and> \<not> verifyHmac (Buffer ''{}'') ''AAAA'' ''whsec''"
proof -
  have len: "length ''AAAA'' \<noteq> length (base64 (hmac_sha256 ''whsec'' ''{}''))"
    by (simp add: digest_text_length)
  from verifyHmac_accepts_exactly_the_digest[of "''{}''" "base64 (hmac_sha256 ''whsec'' ''{}'')" "''whsec''"]
       verifyHmac_accepts_exactly_the_digest[of "''{}''" "''AAAA''" "''whsec''"] len
  show ?thesis by blast
qed

section \<open>Evolution of the store under the storage calls\<close>


lemma storage_call_shape: "\<exists>fs. snd (storage_call s) = s\<lparr>faults := fs\<rparr>"
  by (auto simp: storage_call_def split: list.splits intro: exI[of _ "faults s"])

lemma storage_call_no_faults: "faults s = [] \<Longrightarrow> storage_call s = (False, s)"
  by (simp add: storage_call_def)

lemma wf_store_faults: "wf_store (s\<lparr>faults := fs\<rparr>) = wf_store s"
  by (simp add: wf_store_def ids_ok_def keys_unique_def refs_same_tenant_def)

lemma evolves_refl: "wf_store s \<Longrightarrow> evolves t s s"
  by (simp add: evolves_def keys_kept_def)

lemma evolves_trans: "evolves t s s1 \<Longrightarrow> evolves t s1 s2 \<Longrightarrow> evolves t s s2"
  unfolding evolves_def keys_kept_def by (auto intro: prefix_order.trans)

lemma evolves_faults: "wf_store s \<Longrightarrow> evolves t s (s\<lparr>faults := fs\<rparr>)"
  by (simp add: evolves_def keys_kept_def tenant_rows_def wf_store_faults)

lemma filter_map_same:
  assumes "\<And>x. x \<in> set xs \<Longrightarrow> Q (f x) = Q x" and "\<And>x. x \<in> set xs \<Longrightarrow> Q x \<Longrightarrow> f x = x"
  shows "filter Q (map f xs) = filter Q xs"
  using assms by (induction xs) auto

lemma map_map_same:
  assumes "\<And>x. x \<in> set xs \<Longrightarrow> g (f x) = g x"
  shows "map g (map f xs) = map g xs"
  using assms by (induction xs) auto

lemma list_ex_map_same:
  assumes "\<And>x. x \<in> set xs \<Longrightarrow> Q (f x) = Q x"
  shows "list_ex Q (map f xs) = list_ex Q xs"
  using assms by (induction xs) auto

lemma update_customer_ident: "customer_ident (update_customer d c) = customer_ident c"
  by (simp add: update_customer_def customer_ident_def)

lemma update_customer_sel:
  "c_id (update_customer d c) = c_id c"
  "c_tenantId (update_customer d c) = c_tenantId c"
  "c_shopifyCustomerId (update_customer d c) = c_shopifyCustomerId c"
  by (simp_all add: update_customer_def)

lemma evolves_customers_map:
  assumes wf: "wf_store s"
    and ident: "\<And>c. c \<in> set (customers s) \<Longrightarrow> customer_ident (f c) = customer_ident c"
    and other: "\<And>c. c \<in> set (customers s) \<Longrightarrow> c_tenantId c \<noteq> t \<Longrightarrow> f c = c"
  shows "evolves t s (s\<lparr>faults := fs, customers := map f (customers s)\<rparr>)"
proof -
  let ?s' = "s\<lparr>faults := fs, customers := map f (customers s)\<rparr>"
  have sel: "c_id (f c) = c_id c" "c_tenantId (f c) = c_tenantId c"
       "c_shopifyCustomerId (f c) = c_shopifyCustomerId c" if "c \<in> set (customers s)" for c
    using ident[OF that] by (simp_all add: customer_ident_def)
  have m1: "map customer_ident (map f (customers s)) = map customer_ident (customers s)"
    by (rule map_map_same) (rule ident)
  have m2: "map c_id (map f (customers s)) = map c_id (customers s)"
    by (rule map_map_same) (rule sel)
  have m3: "map (\<lambda>c. (c_tenantId c, c_shopifyCustomerId c)) (map f (customers s))
          = map (\<lambda>c. (c_tenantId c, c_shopifyCustomerId c)) (customers s)"
    by (rule map_map_same) (simp add: sel)
  have m4: "map (\<lambda>c. (c_id c, c_tenantId c)) (map f (customers s))
          = map (\<lambda>c. (c_id c, c_tenantId c)) (customers s)"
    by (rule map_map_same) (simp add: sel)
  have kk: "keys_kept s ?s'"
    using m1 by (simp add: keys_kept_def del: map_map)
  have rows: "tenant_rows t2 ?s' = tenant_rows t2 s" if "t2 \<noteq> t" for t2
  proof -
    have "filter (\<lambda>c. c_tenantId c = t2) (map f (customers s)) = filter (\<lambda>c. c_tenantId c = t2) (customers s)"
      by (rule filter_map_same) (use that other sel in auto)
    then show ?thesis by (simp add: tenant_rows_def)
  qed
  have ids: "ids_ok ?s'"
    using wf m2 sel by (auto simp: wf_store_def ids_ok_def list_all_iff simp del: map_map)
  have ku: "keys_unique ?s'"
    using wf m3 by (simp add: wf_store_def keys_unique_def del: map_map)
  have ex: "ref_ok (map f (customers s)) ord = ref_ok (customers s) ord" for ord
    by (simp add: ref_ok_def list_ex_map_same sel split: option.splits)
  have refs: "refs_same_tenant ?s'"
    using wf by (simp add: wf_store_def refs_same_tenant_def list_all_iff ex)
  show ?thesis
    unfolding evolves_def wf_store_def using kk rows ids ku refs by simp
qed


lemma evolves_customers_insert:
  assumes wf: "wf_store s"
    and fresh: "find (is_customer t sid) (customers s) = None"
  shows "evolves t s (s\<lparr>faults := fs, customers := customers s @ [new_customer (next_id s) t sid d],
                        next_id := Suc (next_id s)\<rparr>)"
proof -
  let ?row = "new_customer (next_id s) t sid d"
  let ?s' = "s\<lparr>faults := fs, customers := customers s @ [?row], next_id := Suc (next_id s)\<rparr>"
  have row: "c_id ?row = next_id s" "c_tenantId ?row = t" "c_shopifyCustomerId ?row = sid"
    by (simp_all add: new_customer_def)
  have nokey: "(t, sid) \<notin> set (map (\<lambda>c. (c_tenantId c, c_shopifyCustomerId c)) (customers s))"
    using fresh by (auto simp: find_None_iff is_customer_def)
  have noid: "next_id s \<notin> set (map c_id (customers s))"
    using wf by (auto simp: wf_store_def ids_ok_def list_all_iff)
  have kk: "keys_kept s ?s'"
    by (simp add: keys_kept_def)
  have rows: "tenant_rows t2 ?s' = tenant_rows t2 s" if "t2 \<noteq> t" for t2
    using that by (simp add: tenant_rows_def row)
  have ids: "ids_ok ?s'"
    using wf noid by (auto simp: wf_store_def ids_ok_def list_all_iff row)
  have ku: "keys_unique ?s'"
    using wf nokey by (simp add: wf_store_def keys_unique_def row)
  have ex: "ref_ok (customers s) ord \<Longrightarrow> ref_ok (customers s @ [?row]) ord" for ord
    by (auto simp: ref_ok_def split: option.splits)
  have refs: "refs_same_tenant ?s'"
    using wf by (simp add: wf_store_def refs_same_tenant_def list_all_iff ex)
  show ?thesis
    unfolding evolves_def wf_store_def using kk rows ids ku refs by simp
qed

lemma evolves_products_map:
  assumes wf: "wf_store s"
    and ident: "\<And>p. p \<in> set (products s) \<Longrightarrow> product_ident (f p) = product_ident p"
    and other: "\<And>p. p \<in> set (products s) \<Longrightarrow> p_tenantId p \<noteq> t \<Longrightarrow> f p = p"
  shows "evolves t s (s\<lparr>faults := fs, products := map f (products s)\<rparr>)"
proof -
  let ?s' = "s\<lparr>faults := fs, products := map f (products s)\<rparr>"
  have sel: "p_id (f p) = p_id p" "p_tenantId (f p) = p_tenantId p"
       "p_shopifyProductId (f p) = p_shopifyProductId p" if "p \<in> set (products s)" for p
    using ident[OF that] by (simp_all add: product_ident_def)
  have m1: "map product_ident (map f (products s)) = map product_ident (products s)"
    by (rule map_map_same) (rule ident)
  have m3: "map (\<lambda>p. (p_tenantId p, p_shopifyProductId p)) (map f (products s))
          = map (\<lambda>p. (p_tenantId p, p_shopifyProductId p)) (products s)"
    by (rule map_map_same) (simp add: sel)
  have kk: "keys_kept s ?s'"
    using m1 by (simp add: keys_kept_def del: map_map)
  have rows: "tenant_rows t2 ?s' = tenant_rows t2 s" if "t2 \<noteq> t" for t2
  proof -
    have "filter (\<lambda>p. p_tenantId p = t2) (map f (products s)) = filter (\<lambda>p. p_tenantId p = t2) (products s)"
      by (rule filter_map_same) (use that other sel in auto)
    then show ?thesis by (simp add: tenant_rows_def)
  qed
  have ids: "ids_ok ?s'"
    using wf by (simp add: wf_store_def ids_ok_def)
  have ku: "keys_unique ?s'"
    using wf m3 by (simp add: wf_store_def keys_unique_def del: map_map)
  have refs: "refs_same_tenant ?s'"
    using wf by (simp add: wf_store_def refs_same_tenant_def)
  show ?thesis
    unfolding evolves_def wf_store_def using kk rows ids ku refs by simp
qed

lemma evolves_products_insert:
  assumes wf: "wf_store s"
    and fresh: "find (is_product t sid) (products s) = None"
    and row: "p_tenantId row = t" "p_shopifyProductId row = sid"
  shows "evolves t s (s\<lparr>faults := fs, products := products s @ [row], next_id := Suc (next_id s)\<rparr>)"
proof -
  let ?s' = "s\<lparr>faults := fs, products := products s @ [row], next_id := Suc (next_id s)\<rparr>"
  have nokey: "(t, sid) \<notin> set (map (\<lambda>p. (p_tenantId p, p_shopifyProductId p)) (products s))"
    using fresh by (auto simp: find_None_iff is_product_def)
  have kk: "keys_kept s ?s'"
    by (simp add: keys_kept_def)
  have rows: "tenant_rows t2 ?s' = tenant_rows t2 s" if "t2 \<noteq> t" for t2
    using that by (simp add: tenant_rows_def row)
  have ids: "ids_ok ?s'"
    using wf by (auto simp: wf_store_def ids_ok_def list_all_iff)
  have ku: "keys_unique ?s'"
    using wf nokey by (simp add: wf_store_def keys_unique_def row)
  have refs: "refs_same_tenant ?s'"
    using wf by (simp add: wf_store_def refs_same_tenant_def)
  show ?thesis
    unfolding evolves_def wf_store_def using kk rows ids ku refs by simp
qed

lemma evolves_orders_map:
  assumes wf: "wf_store s"
    and ident: "\<And>ord. ord \<in> set (orders s) \<Longrightarrow> order_ident (f ord) = order_ident ord"
    and other: "\<And>ord. ord \<in> set (orders s) \<Longrightarrow> o_tenantId ord \<noteq> t \<Longrightarrow> f ord = ord"
    and ref: "\<And>ord. ord \<in> set (orders s) \<Longrightarrow> ref_ok (customers s) ord \<Longrightarrow> ref_ok (customers s) (f ord)"
  shows "evolves t s (s\<lparr>faults := fs, orders := map f (orders s)\<rparr>)"
proof -
  let ?s' = "s\<lparr>faults := fs, orders := map f (orders s)\<rparr>"
  have sel: "o_id (f p) = o_id p" "o_tenantId (f p) = o_tenantId p"
       "o_shopifyOrderId (f p) = o_shopifyOrderId p" if "p \<in> set (orders s)" for p
    using ident[OF that] by (simp_all add: order_ident_def)
  have m1: "map order_ident (map f (orders s)) = map order_ident (orders s)"
    by (rule map_map_same) (rule ident)
  have m3: "map (\<lambda>p. (o_tenantId p, o_shopifyOrderId p)) (map f (orders s))
          = map (\<lambda>p. (o_tenantId p, o_shopifyOrderId p)) (orders s)"
    by (rule map_map_same) (simp add: sel)
  have kk: "keys_kept s ?s'"
    using m1 by (simp add: keys_kept_def del: map_map)
  have rows: "tenant_rows t2 ?s' = tenant_rows t2 s" if "t2 \<noteq> t" for t2
  proof -
    have "filter (\<lambda>p. o_tenantId p = t2) (map f (orders s)) = filter (\<lambda>p. o_tenantId p = t2) (orders s)"
      by (rule filter_map_same) (use that other sel in auto)
    then show ?thesis by (simp add: tenant_rows_def)
  qed
  have ids: "ids_ok ?s'"
    using wf by (simp add: wf_store_def ids_ok_def)
  have ku: "keys_unique ?s'"
    using wf m3 by (simp add: wf_store_def keys_unique_def del: map_map)
  have refs: "refs_same_tenant ?s'"
    using wf ref by (simp add: wf_store_def refs_same_tenant_def list_all_iff)
  show ?thesis
    unfolding evolves_def wf_store_def using kk rows ids ku refs by simp
qed

lemma evolves_orders_insert:
  assumes wf: "wf_store s"
    and fresh: "find (is_order t sid) (orders s) = None"
    and row: "o_tenantId row = t" "o_shopifyOrderId row = sid" "ref_ok (customers s) row"
  shows "evolves t s (s\<lparr>faults := fs, orders := orders s @ [row], next_id := Suc (next_id s)\<rparr>)"
proof -
  let ?s' = "s\<lparr>faults := fs, orders := orders s @ [row], next_id := Suc (next_id s)\<rparr>"
  have nokey: "(t, sid) \<notin> set (map (\<lambda>p. (o_tenantId p, o_shopifyOrderId p)) (orders s))"
    using fresh by (auto simp: find_None_iff is_order_def)
  have kk: "keys_kept s ?s'"
    by (simp add: keys_kept_def)
  have rows: "tenant_rows t2 ?s' = tenant_rows t2 s" if "t2 \<noteq> t" for t2
    using that by (simp add: tenant_rows_def row)
  have ids: "ids_ok ?s'"
    using wf by (auto simp: wf_store_def ids_ok_def list_all_iff)
  have ku: "keys_unique ?s'"
    using wf nokey by (simp add: wf_store_def keys_unique_def row)
  have refs: "refs_same_tenant ?s'"
    using wf row(3) by (simp add: wf_store_def refs_same_tenant_def)
  show ?thesis
    unfolding evolves_def wf_store_def using kk rows ids ku refs by simp
qed


lemma storage_call_cases:
  obtains b fs where "storage_call s = (b, s\<lparr>faults := fs\<rparr>)"
proof -
  obtain b s1 where sc: "storage_call s = (b, s1)" by force
  with storage_call_shape[of s] obtain fs where "s1 = s\<lparr>faults := fs\<rparr>" by auto
  with sc that show thesis by blast
qed

lemma update_product_ident: "product_ident (update_product d p) = product_ident p"
  by (simp add: update_product_def product_ident_def)

lemma update_order_ident: "order_ident (update_order d ord) = order_ident ord"
  by (simp add: update_order_def order_ident_def)

lemma evolves_tenant_findUnique_id: "wf_store s \<Longrightarrow> evolves t s (snd (tenant_findUnique_id i s))"
  by (rule storage_call_cases[of s]) (auto simp: tenant_findUnique_id_def intro: evolves_faults split: bool.splits)

lemma evolves_tenant_findUnique_shop: "wf_store s \<Longrightarrow> evolves t s (snd (tenant_findUnique_shop shop s))"
  by (rule storage_call_cases[of s]) (auto simp: tenant_findUnique_shop_def intro: evolves_faults split: bool.splits)

lemma evolves_customer_findFirst: "wf_store s \<Longrightarrow> evolves t s (snd (customer_findFirst t' sid s))"
  by (rule storage_call_cases[of s]) (auto simp: customer_findFirst_def intro: evolves_faults split: bool.splits)

lemma evolves_customer_findMany_missing:
  "wf_store s \<Longrightarrow> evolves t s (snd (customer_findMany_missing t' n s))"
  by (rule storage_call_cases[of s]) (auto simp: customer_findMany_missing_def intro: evolves_faults split: bool.splits)

lemma evolves_customer_upsert:
  assumes "wf_store s"
  shows "evolves t s (snd (customer_upsert t sid u c s))"
proof (rule storage_call_cases[of s])
  fix b fs assume sc: "storage_call s = (b, s\<lparr>faults := fs\<rparr>)"
  show ?thesis
  proof (cases b)
    case True
    then show ?thesis using sc assms by (simp add: customer_upsert_def evolves_faults)
  next
    case False
    show ?thesis
    proof (cases "find (is_customer t sid) (customers s)")
      case None
      then show ?thesis
        using sc False evolves_customers_insert[OF assms None, where fs=fs and d=c]
        by (simp add: customer_upsert_def Let_def)
    next
      case (Some old)
      have "evolves t s (s\<lparr>faults := fs, customers :=
              map (\<lambda>c. if is_customer t sid c then update_customer u c else c) (customers s)\<rparr>)"
        by (rule evolves_customers_map[OF assms])
           (auto simp: update_customer_ident is_customer_def)
      then show ?thesis using sc False Some by (simp add: customer_upsert_def)
    qed
  qed
qed

lemma evolves_customer_create:
  assumes "wf_store s"
  shows "evolves t s (snd (customer_create t sid d s))"
proof (rule storage_call_cases[of s])
  fix b fs assume sc: "storage_call s = (b, s\<lparr>faults := fs\<rparr>)"
  show ?thesis
  proof (cases b)
    case True
    then show ?thesis using sc assms by (simp add: customer_create_def evolves_faults)
  next
    case False
    show ?thesis
    proof (cases "find (is_customer t sid) (customers s)")
      case None
      then show ?thesis
        using sc False evolves_customers_insert[OF assms None, where fs=fs and d=d]
        by (simp add: customer_create_def Let_def)
    next
      case (Some old)
      then show ?thesis using sc False assms by (simp add: customer_create_def evolves_faults)
    qed
  qed
qed

lemma evolves_customer_update:
  assumes wf: "wf_store s"
    and own: "existing \<in> set (customers s)" "c_tenantId existing = t"
  shows "evolves t s (snd (customer_update (c_id existing) d s))"
proof (rule storage_call_cases[of s])
  fix b fs assume sc: "storage_call s = (b, s\<lparr>faults := fs\<rparr>)"
  show ?thesis
  proof (cases b)
    case True
    then show ?thesis using sc wf by (simp add: customer_update_def evolves_faults)
  next
    case False
    have uniq: "c = existing" if "c \<in> set (customers s)" "c_id c = c_id existing" for c
      using wf own(1) that by (auto simp: wf_store_def ids_ok_def distinct_map inj_on_def)
    have ev: "evolves t s (s\<lparr>faults := fs, customers :=
              map (\<lambda>c. if c_id c = c_id existing then update_customer d c else c) (customers s)\<rparr>)"
      by (rule evolves_customers_map[OF wf])
         (use uniq own in \<open>auto simp: update_customer_ident\<close>)
    show ?thesis
      using sc False ev wf
      by (cases "find (\<lambda>c. c_id c = c_id existing) (customers s)")
         (simp_all add: customer_update_def evolves_faults)
  qed
qed

lemma evolves_product_upsert:
  assumes "wf_store s"
  shows "evolves t s (snd (product_upsert t sid u c s))"
proof (rule storage_call_cases[of s])
  fix b fs assume sc: "storage_call s = (b, s\<lparr>faults := fs\<rparr>)"
  show ?thesis
  proof (cases b)
    case True
    then show ?thesis using sc assms by (simp add: product_upsert_def evolves_faults)
  next
    case False
    show ?thesis
    proof (cases "find (is_product t sid) (products s)")
      case None
      show ?thesis
      proof (cases "new_product (next_id s) t sid c")
        case nn: None
        then show ?thesis using sc False None assms by (simp add: product_upsert_def evolves_faults)
      next
        case (Some row)
        then have "p_tenantId row = t" "p_shopifyProductId row = sid"
          by (auto simp: new_product_def split: setter.splits)
        from evolves_products_insert[OF assms None this, where fs=fs]
        show ?thesis using sc False None Some by (simp add: product_upsert_def)
      qed
    next
      case (Some old)
      have "evolves t s (s\<lparr>faults := fs, products :=
              map (\<lambda>p. if is_product t sid p then update_product u p else p) (products s)\<rparr>)"
        by (rule evolves_products_map[OF assms])
           (auto simp: update_product_ident is_product_def)
      then show ?thesis using sc False Some by (simp add: product_upsert_def)
    qed
  qed
qed

text \<open>The customer reference that an order's data writes is a customer of tenant \<open>t\<close>.\<close>

lemma ref_ok_update_order:
  assumes "ref_ok cs ord" "o_tenantId ord = t"
    and "od_customerId d = Keep \<or> od_customerId d = Set None
         \<or> (\<exists>i. od_customerId d = Set (Some i) \<and> list_ex (\<lambda>c. c_id c = i \<and> c_tenantId c = t) cs)"
  shows "ref_ok cs (update_order d ord)"
  using assms by (auto simp: ref_ok_def update_order_def put_def split: option.splits)

lemma ref_ok_new_order:
  assumes "new_order n t sid d = Some row"
    and "od_customerId d = Keep \<or> od_customerId d = Set None
         \<or> (\<exists>i. od_customerId d = Set (Some i) \<and> list_ex (\<lambda>c. c_id c = i \<and> c_tenantId c = t) cs)"
  shows "ref_ok cs row \<and> o_tenantId row = t \<and> o_shopifyOrderId row = sid"
  using assms by (auto simp: ref_ok_def new_order_def put_def split: option.splits setter.splits)

lemma evolves_order_upsert:
  assumes wf: "wf_store s"
    and ru: "od_customerId u = Keep \<or> od_customerId u = Set None
         \<or> (\<exists>i. od_customerId u = Set (Some i) \<and> list_ex (\<lambda>c. c_id c = i \<and> c_tenantId c = t) (customers s))"
    and rc: "od_customerId c = Keep \<or> od_customerId c = Set None
         \<or> (\<exists>i. od_customerId c = Set (Some i) \<and> list_ex (\<lambda>c. c_id c = i \<and> c_tenantId c = t) (customers s))"
  shows "evolves t s (snd (order_upsert t sid u c s))"
proof (rule storage_call_cases[of s])
  fix b fs assume sc: "storage_call s = (b, s\<lparr>faults := fs\<rparr>)"
  show ?thesis
  proof (cases b)
    case True
    then show ?thesis using sc wf by (simp add: order_upsert_def evolves_faults)
  next
    case False
    show ?thesis
    proof (cases "find (is_order t sid) (orders s)")
      case None
      show ?thesis
      proof (cases "new_order (next_id s) t sid c")
        case nn: None
        then show ?thesis using sc False None wf by (simp add: order_upsert_def evolves_faults)
      next
        case (Some row)
        from ref_ok_new_order[OF Some rc]
        have "o_tenantId row = t" "o_shopifyOrderId row = sid" "ref_ok (customers s) row" by auto
        from evolves_orders_insert[OF wf None this, where fs=fs]
        show ?thesis using sc False None Some by (simp add: order_upsert_def)
      qed
    next
      case (Some old)
      have "evolves t s (s\<lparr>faults := fs, orders :=
              map (\<lambda>p. if is_order t sid p then update_order u p else p) (orders s)\<rparr>)"
        by (rule evolves_orders_map[OF wf])
           (auto simp: update_order_ident is_order_def intro: ref_ok_update_order[OF _ _ ru])
      then show ?thesis using sc False Some by (simp add: order_upsert_def)
    qed
  qed
qed

section \<open>Evolution of the store under the sync engine and the dispatcher\<close>


lemma customer_findFirst_Some:
  assumes "customer_findFirst t sid s = (Inr (Some e), s1)"
  shows "e \<in> set (customers s1) \<and> c_tenantId e = t \<and> c_shopifyCustomerId e = sid
         \<and> find (is_customer t sid) (customers s1) = Some e"
proof (rule storage_call_cases[of s])
  fix b fs assume sc: "storage_call s = (b, s\<lparr>faults := fs\<rparr>)"
  with assms have f: "find (is_customer t sid) (customers s1) = Some e"
    by (auto simp: customer_findFirst_def split: bool.splits)
  then show ?thesis by (auto simp: find_Some_iff is_customer_def)
qed

lemma snd_sync_product:
  "snd (sync_product t p s) = snd (product_upsert t (js_String (r_id p)) (sync_product_data p) (sync_product_data p) s)"
  by (auto simp: sync_product_def split: prod.splits sum.splits)

lemma evolves_sync_product: "wf_store s \<Longrightarrow> evolves t s (snd (sync_product t p s))"
  by (simp add: snd_sync_product evolves_product_upsert)

lemma evolves_wf: "evolves t s s' \<Longrightarrow> wf_store s'"
  by (simp add: evolves_def)

lemma evolves_customer_fallback:
  assumes wf: "wf_store s"
  shows "evolves t s (snd (customer_fallback t sid d s))"
proof -
  obtain r s1 where ff: "customer_findFirst t sid s = (r, s1)" by force
  have e1: "evolves t s s1" using evolves_customer_findFirst[OF wf, of t t sid] ff by simp
  then have wf1: "wf_store s1" by (rule evolves_wf)
  show ?thesis
  proof (cases r)
    case (Inl e)
    then show ?thesis using ff e1 by (simp add: customer_fallback_def)
  next
    case (Inr found)
    show ?thesis
    proof (cases found)
      case None
      have "evolves t s1 (snd (customer_create t sid d s1))" by (rule evolves_customer_create[OF wf1])
      with e1 have "evolves t s (snd (customer_create t sid d s1))" by (rule evolves_trans)
      then show ?thesis using ff Inr None
        by (auto simp: customer_fallback_def split: prod.splits sum.splits)
    next
      case (Some existing)
      from customer_findFirst_Some[of t sid s existing s1] ff Inr Some
      have own: "existing \<in> set (customers s1)" "c_tenantId existing = t" by auto
      have "evolves t s1 (snd (customer_update (c_id existing) d s1))"
        by (rule evolves_customer_update[OF wf1 own])
      with e1 have "evolves t s (snd (customer_update (c_id existing) d s1))" by (rule evolves_trans)
      then show ?thesis using ff Inr Some
        by (auto simp: customer_fallback_def split: prod.splits sum.splits)
    qed
  qed
qed

lemma evolves_sync_customer:
  assumes wf: "wf_store s"
  shows "evolves t s (snd (sync_customer t c s))"
proof -
  let ?sid = "js_String (r_id c)" and ?d = "sync_customer_data c"
  obtain r s1 where up: "customer_upsert t ?sid ?d ?d s = (r, s1)" by force
  have e1: "evolves t s s1" using evolves_customer_upsert[OF wf, of t ?sid ?d ?d] up by simp
  show ?thesis
  proof (cases r)
    case (Inr row)
    then show ?thesis using up e1 by (simp add: sync_customer_def)
  next
    case (Inl err)
    have "evolves t s1 (snd (customer_fallback t ?sid ?d s1))"
      by (rule evolves_customer_fallback[OF evolves_wf[OF e1]])
    with e1 have "evolves t s (snd (customer_fallback t ?sid ?d s1))" by (rule evolves_trans)
    then show ?thesis using up Inl by (simp add: sync_customer_def)
  qed
qed

lemma resolve_customer_evolves:
  assumes wf: "wf_store s" and rc: "resolve_customer t ord s = (r, s1)"
  shows "evolves t s s1
       \<and> (\<forall>i. r = Inr (Some i) \<longrightarrow> list_ex (\<lambda>c. c_id c = i \<and> c_tenantId c = t) (customers s1))"
proof (cases "r_customer ord")
  case None
  then show ?thesis using rc wf by (auto simp: resolve_customer_def evolves_refl)
next
  case (Some ec)
  show ?thesis
  proof (cases "js_truthy (ec_id ec)")
    case False
    then show ?thesis using rc wf Some by (auto simp: resolve_customer_def evolves_refl)
  next
    case True
    let ?sid = "js_String (ec_id ec)"
    obtain r' s' where ff: "customer_findFirst t ?sid s = (r', s')" by force
    have e1: "evolves t s s'" using evolves_customer_findFirst[OF wf, of t t ?sid] ff by simp
    have s1: "s1 = s'" using rc Some True ff by (auto simp: resolve_customer_def split: sum.splits)
    have "list_ex (\<lambda>c. c_id c = i \<and> c_tenantId c = t) (customers s1)" if "r = Inr (Some i)" for i
    proof -
      from that rc Some True ff obtain e where "r' = Inr (Some e)" "c_id e = i"
        by (auto simp: resolve_customer_def split: sum.splits)
      with customer_findFirst_Some[of t ?sid s e s'] ff s1 show ?thesis
        by (auto simp: list_ex_iff)
    qed
    then show ?thesis using e1 s1 by simp
  qed
qed

lemma evolves_sync_order:
  assumes wf: "wf_store s"
  shows "evolves t s (snd (sync_order t ord s))"
proof -
  obtain r s1 where rc: "resolve_customer t ord s = (r, s1)" by force
  from resolve_customer_evolves[OF wf rc]
  have e1: "evolves t s s1"
    and ok: "\<And>i. r = Inr (Some i) \<Longrightarrow> list_ex (\<lambda>c. c_id c = i \<and> c_tenantId c = t) (customers s1)"
    by auto
  show ?thesis
  proof (cases r)
    case (Inl e)
    then show ?thesis using rc e1 by (simp add: sync_order_def)
  next
    case (Inr customerId)
    let ?d = "order_data_of ord customerId"
    have ref: "od_customerId ?d = Keep \<or> od_customerId ?d = Set None
         \<or> (\<exists>i. od_customerId ?d = Set (Some i) \<and> list_ex (\<lambda>c. c_id c = i \<and> c_tenantId c = t) (customers s1))"
      using ok Inr by (cases customerId) (auto simp: order_data_of_def keep_absent_def)
    have "evolves t s1 (snd (order_upsert t (js_String (r_id ord)) ?d ?d s1))"
      by (rule evolves_order_upsert[OF evolves_wf[OF e1] ref ref])
    with e1 have "evolves t s (snd (order_upsert t (js_String (r_id ord)) ?d ?d s1))"
      by (rule evolves_trans)
    then show ?thesis using rc Inr
      by (auto simp: sync_order_def split: prod.splits sum.splits)
  qed
qed

lemma evolves_sync_all:
  assumes step: "\<And>x s. wf_store s \<Longrightarrow> evolves t s (snd (step x s))"
  shows "wf_store s \<Longrightarrow> evolves t s (snd (sync_all step xs n s))"
proof (induction xs arbitrary: n s)
  case Nil
  then show ?case by (simp add: evolves_refl)
next
  case (Cons x xs)
  obtain counted s1 where st: "step x s = (counted, s1)" by force
  have e1: "evolves t s s1" using step[OF Cons.prems, of x] st by simp
  from Cons.IH[OF evolves_wf[OF e1]] e1 st show ?case
    by (auto intro: evolves_trans)
qed



lemma fetchShopifyCustomerById_None: "fetchShopifyCustomerById client i = None"
  by (simp add: fetchShopifyCustomerById_def client_get_def split: option.splits)

lemma backfill_row_skip: "backfill_row client row s = (False, s)"
  by (simp add: backfill_row_def fetchShopifyCustomerById_None)

lemma backfill_all_skip: "sync_all (backfill_row client) rows n s = (n, s)"
  by (induction rows) (simp_all add: backfill_row_skip)

lemma evolves_backfill_pass:
  assumes "wf_store s"
  shows "evolves t s (snd (backfill_pass t client pc cc oc s))"
proof -
  obtain r s1 where fm: "customer_findMany_missing t 1000 s = (r, s1)" by force
  have "evolves t s s1" using evolves_customer_findMany_missing[OF assms, of t t 1000] fm by simp
  then show ?thesis using fm
    by (cases r) (simp_all add: backfill_pass_def backfill_all_skip)
qed

lemma evolves_sync_collections:
  assumes wf: "wf_store s"
  shows "evolves t s (snd (sync_collections t client api s))"
proof (cases "fst (fetchAllProducts client api)")
  case (Inl e)
  then show ?thesis using wf by (simp add: sync_collections_def evolves_refl)
next
  case ps: (Inr remote_products)
  obtain n1 s1 where a1: "sync_all (sync_product t) remote_products 0 s = (n1, s1)" by force
  have e1: "evolves t s s1"
    using evolves_sync_all[of t "sync_product t", OF evolves_sync_product wf, of remote_products 0] a1
    by simp
  show ?thesis
  proof (cases "fst (fetchAllCustomers client api)")
    case (Inl e)
    then show ?thesis using ps a1 e1 by (simp add: sync_collections_def)
  next
    case cs: (Inr remote_customers)
    obtain n2 s2 where a2: "sync_all (sync_customer t) remote_customers 0 s1 = (n2, s2)" by force
    have "evolves t s1 s2"
      using evolves_sync_all[of t "sync_customer t", OF evolves_sync_customer evolves_wf[OF e1],
          of remote_customers 0] a2
      by simp
    with e1 have e2: "evolves t s s2" by (rule evolves_trans)
    show ?thesis
    proof (cases "fst (fetchAllOrders client api)")
      case (Inl e)
      then show ?thesis using ps cs a1 a2 e2 by (simp add: sync_collections_def)
    next
      case os: (Inr remote_orders)
      obtain n3 s3 where a3: "sync_all (sync_order t) remote_orders 0 s2 = (n3, s3)" by force
      have "evolves t s2 s3"
        using evolves_sync_all[of t "sync_order t", OF evolves_sync_order evolves_wf[OF e2],
            of remote_orders 0] a3
        by simp
      with e2 have e3: "evolves t s s3" by (rule evolves_trans)
      have "evolves t s3 (snd (backfill_pass t client n1 n2 n3 s3))"
        by (rule evolves_backfill_pass[OF evolves_wf[OF e3]])
      with e3 have "evolves t s (snd (backfill_pass t client n1 n2 n3 s3))" by (rule evolves_trans)
      then show ?thesis using ps cs os a1 a2 a3 by (simp add: sync_collections_def)
    qed
  qed
qed

lemma evolves_fullSync:
  assumes wf: "wf_store s"
  shows "evolves t s (snd (fullSync t api s))"
proof -
  obtain r s0 where tf: "tenant_findUnique_id t s = (r, s0)" by force
  have e0: "evolves t s s0" using evolves_tenant_findUnique_id[OF wf, of t t] tf by simp
  have "evolves t s (snd (sync_collections t client api s0))" for client
    using evolves_sync_collections[OF evolves_wf[OF e0]] e0 by (blast intro: evolves_trans)
  then show ?thesis using tf e0
    by (auto simp: fullSync_def split: sum.splits option.splits)
qed

lemma find_map_update:
  assumes "\<And>x. P (g x) = P x"
  shows "find P (map (\<lambda>x. if P x then g x else x) xs) = map_option g (find P xs)"
  using assms by (induction xs) auto

lemma find_append_new: "find P xs = None \<Longrightarrow> P y \<Longrightarrow> find P (xs @ [y]) = Some y"
  by (induction xs) (auto split: if_splits)

lemma is_customer_update: "is_customer t sid (update_customer d c) = is_customer t sid c"
  by (simp add: is_customer_def update_customer_sel)

lemma is_customer_new: "is_customer t sid (new_customer i t sid d)"
  by (simp add: is_customer_def new_customer_def)

lemma customer_upsert_result:
  assumes "customer_upsert t sid u c s = (Inr cust, s1)"
  shows "find (is_customer t sid) (customers s1) = Some cust"
proof (rule storage_call_cases[of s])
  fix b fs assume sc: "storage_call s = (b, s\<lparr>faults := fs\<rparr>)"
  show ?thesis
  proof (cases "find (is_customer t sid) (customers s)")
    case None
    then show ?thesis using assms sc
      by (auto simp: customer_upsert_def Let_def find_append_new is_customer_new split: bool.splits)
  next
    case (Some old)
    then show ?thesis using assms sc
      by (auto simp: customer_upsert_def find_map_update is_customer_update split: bool.splits)
  qed
qed

lemma webhook_order_customer_evolves:
  assumes wf: "wf_store s" and rc: "webhook_order_customer t payload s = (r, s1)"
  shows "evolves t s s1
       \<and> (\<forall>i. r = Inr (Some i) \<longrightarrow> list_ex (\<lambda>c. c_id c = i \<and> c_tenantId c = t) (customers s1))"
proof (cases "r_customer payload")
  case None
  then show ?thesis using rc wf by (auto simp: webhook_order_customer_def evolves_refl)
next
  case (Some ec)
  show ?thesis
  proof (cases "js_truthy (ec_id ec)")
    case False
    then show ?thesis using rc wf Some by (auto simp: webhook_order_customer_def evolves_refl)
  next
    case True
    let ?sid = "js_String (ec_id ec)"
    obtain r' s' where up: "customer_upsert t ?sid (webhook_customer_update ec) (webhook_customer_create ec) s = (r', s')"
      by force
    have e1: "evolves t s s'"
      using evolves_customer_upsert[OF wf, of t ?sid "webhook_customer_update ec" "webhook_customer_create ec"] up
      by simp
    have s1: "s1 = s'" using rc Some True up by (auto simp: webhook_order_customer_def split: sum.splits)
    have "list_ex (\<lambda>c. c_id c = i \<and> c_tenantId c = t) (customers s1)" if "r = Inr (Some i)" for i
    proof -
      from that rc Some True up obtain cust where c: "r' = Inr cust" "c_id cust = i"
        by (auto simp: webhook_order_customer_def split: sum.splits)
      with customer_upsert_result[of t ?sid _ _ s cust s'] up
      have "find (is_customer t ?sid) (customers s') = Some cust" by simp
      then have "cust \<in> set (customers s') \<and> c_tenantId cust = t"
        by (auto simp: find_Some_iff is_customer_def)
      with c s1 show ?thesis by (auto simp: list_ex_iff)
    qed
    then show ?thesis using e1 s1 by simp
  qed
qed

lemma snd_map_result: "snd (map_result r) = snd r"
  by (auto simp: map_result_def split: prod.splits sum.splits)

lemma evolves_dispatch:
  assumes wf: "wf_store s"
  shows "evolves t s (snd (dispatch t topic payload s))"
proof (cases "prefix ''orders/'' topic")
  case True
  obtain r s1 where rc: "webhook_order_customer t payload s = (r, s1)" by force
  from webhook_order_customer_evolves[OF wf rc]
  have e1: "evolves t s s1"
    and ok: "\<And>i. r = Inr (Some i) \<Longrightarrow> list_ex (\<lambda>c. c_id c = i \<and> c_tenantId c = t) (customers s1)"
    by auto
  show ?thesis
  proof (cases r)
    case (Inl e)
    then show ?thesis using rc e1 True by (simp add: dispatch_def)
  next
    case (Inr customerId)
    let ?d = "order_data_of payload customerId"
    have ref: "od_customerId ?d = Keep \<or> od_customerId ?d = Set None
         \<or> (\<exists>i. od_customerId ?d = Set (Some i) \<and> list_ex (\<lambda>c. c_id c = i \<and> c_tenantId c = t) (customers s1))"
      using ok Inr by (cases customerId) (auto simp: order_data_of_def keep_absent_def)
    have "evolves t s1 (snd (order_upsert t (js_String (r_id payload)) ?d ?d s1))"
      by (rule evolves_order_upsert[OF evolves_wf[OF e1] ref ref])
    with e1 have "evolves t s (snd (order_upsert t (js_String (r_id payload)) ?d ?d s1))"
      by (rule evolves_trans)
    then show ?thesis using rc Inr True
      by (simp add: dispatch_def snd_map_result)
  qed
next
  case False
  then show ?thesis using wf
    by (simp add: dispatch_def snd_map_result evolves_customer_upsert evolves_product_upsert evolves_refl)
qed

lemma tenant_findUnique_shop_result:
  assumes "tenant_findUnique_shop shop s = (Inr r, s0)"
  shows "r = find (\<lambda>t. t_shop t = shop) (tenants s)"
  by (rule storage_call_cases[of s]) (use assms in \<open>auto simp: tenant_findUnique_shop_def split: bool.splits\<close>)

lemma evolves_processWebhookPayload:
  assumes wf: "wf_store s"
    and other: "map_option t_id (find (\<lambda>tn. t_shop tn = shop) (tenants s)) \<noteq> Some t2"
  shows "tenant_rows t2 (snd (processWebhookPayload topic shop payload s)) = tenant_rows t2 s
       \<and> wf_store (snd (processWebhookPayload topic shop payload s))
       \<and> keys_kept s (snd (processWebhookPayload topic shop payload s))"
proof -
  obtain r s0 where tf: "tenant_findUnique_shop shop s = (r, s0)" by force
  have e0: "evolves t s s0" for t
    using evolves_tenant_findUnique_shop[OF wf, of t shop] tf by simp
  have base: "tenant_rows t2 s0 = tenant_rows t2 s \<and> wf_store s0 \<and> keys_kept s s0"
    using e0[of "Suc t2"] by (simp add: evolves_def)
  show ?thesis
  proof (cases r)
    case (Inl e)
    then show ?thesis using tf base by (simp add: processWebhookPayload_def)
  next
    case (Inr found)
    show ?thesis
    proof (cases found)
      case None
      then show ?thesis using tf Inr base by (simp add: processWebhookPayload_def)
    next
      case (Some tenant)
      have "find (\<lambda>tn. t_shop tn = shop) (tenants s) = Some tenant"
        using tenant_findUnique_shop_result[of shop s found s0] tf Inr Some by simp
      with other have ne: "t2 \<noteq> t_id tenant" by auto
      have "evolves (t_id tenant) s0 (snd (dispatch (t_id tenant) topic payload s0))"
        by (rule evolves_dispatch[OF evolves_wf[OF e0[of 0]]])
      with e0[of "t_id tenant"]
      have "evolves (t_id tenant) s (snd (dispatch (t_id tenant) topic payload s0))"
        by (rule evolves_trans)
      then show ?thesis using tf Inr Some ne
        by (simp add: processWebhookPayload_def evolves_def)
    qed
  qed
qed

text \<open>
  C4. Let the store be intact (primary keys and unique indexes hold, no order refers to
  a customer of another tenant) and let \<open>t2\<close> be a tenant other than the one that is
  synced, or than the one the webhook's shop belongs to. Remote ids may collide freely,
  since they are not constrained. Then after \<open>fullSync\<close> for \<open>t1\<close> and after
  \<open>processWebhookPayload\<close>, whatever fails on the way, the rows that a lookup scoped to
  \<open>t2\<close> sees are what they were; every row that is new or changed carries \<open>t1\<close>; and
  still no order refers to a customer of another tenant, so every reference that was
  resolved was resolved within \<open>t1\<close>.
\<close>

theorem tenant_isolation:
  assumes "wf_store s" and "t2 \<noteq> t1"
    and "map_option t_id (find (\<lambda>tn. t_shop tn = shop) (tenants s)) \<noteq> Some t2"
  shows "tenant_rows t2 (snd (fullSync t1 api s)) = tenant_rows t2 s
       \<and> list_all (\<lambda>c. c \<in> set (customers s) \<or> c_tenantId c = t1) (customers (snd (fullSync t1 api s)))
       \<and> list_all (\<lambda>p. p \<in> set (products s) \<or> p_tenantId p = t1) (products (snd (fullSync t1 api s)))
       \<and> list_all (\<lambda>ord. ord \<in> set (orders s) \<or> o_tenantId ord = t1) (orders (snd (fullSync t1 api s)))
       \<and> refs_same_tenant (snd (fullSync t1 api s))
       \<and> tenant_rows t2 (snd (processWebhookPayload topic shop payload s)) = tenant_rows t2 s
       \<and> refs_same_tenant (snd (processWebhookPayload topic shop payload s))"
proof -
  let ?s' = "snd (fullSync t1 api s)"
  have ev: "evolves t1 s ?s'" by (rule evolves_fullSync[OF assms(1)])
  then have rows: "tenant_rows t s' = tenant_rows t s" if "t \<noteq> t1" "s' = ?s'" for t s'
    using that by (simp add: evolves_def)
  have c: "c \<in> set (customers s) \<or> c_tenantId c = t1" if "c \<in> set (customers ?s')" for c
  proof (cases "c_tenantId c = t1")
    case False
    from rows[OF False refl] have "filter (\<lambda>x. c_tenantId x = c_tenantId c) (customers ?s')
        = filter (\<lambda>x. c_tenantId x = c_tenantId c) (customers s)"
      by (simp add: tenant_rows_def)
    then have "set (filter (\<lambda>x. c_tenantId x = c_tenantId c) (customers ?s'))
        = set (filter (\<lambda>x. c_tenantId x = c_tenantId c) (customers s))" by simp
    with that show ?thesis by auto
  qed simp
  have p: "p \<in> set (products s) \<or> p_tenantId p = t1" if "p \<in> set (products ?s')" for p
  proof (cases "p_tenantId p = t1")
    case False
    from rows[OF False refl] have "filter (\<lambda>x. p_tenantId x = p_tenantId p) (products ?s')
        = filter (\<lambda>x. p_tenantId x = p_tenantId p) (products s)"
      by (simp add: tenant_rows_def)
    then have "set (filter (\<lambda>x. p_tenantId x = p_tenantId p) (products ?s'))
        = set (filter (\<lambda>x. p_tenantId x = p_tenantId p) (products s))" by simp
    with that show ?thesis by auto
  qed simp
  have o: "ord \<in> set (orders s) \<or> o_tenantId ord = t1" if "ord \<in> set (orders ?s')" for ord
  proof (cases "o_tenantId ord = t1")
    case False
    from rows[OF False refl] have "filter (\<lambda>x. o_tenantId x = o_tenantId ord) (orders ?s')
        = filter (\<lambda>x. o_tenantId x = o_tenantId ord) (orders s)"
      by (simp add: tenant_rows_def)
    then have "set (filter (\<lambda>x. o_tenantId x = o_tenantId ord) (orders ?s'))
        = set (filter (\<lambda>x. o_tenantId x = o_tenantId ord) (orders s))" by simp
    with that show ?thesis by auto
  qed simp
  have refs: "refs_same_tenant ?s'" using ev by (simp add: evolves_def wf_store_def)
  from evolves_processWebhookPayload[OF assms(1,3), of topic payload]
  have w: "tenant_rows t2 (snd (processWebhookPayload topic shop payload s)) = tenant_rows t2 s"
    "refs_same_tenant (snd (processWebhookPayload topic shop payload s))"
    by (simp_all add: wf_store_def)
  show ?thesis
    using rows[OF assms(2) refl] c p o refs w by (simp add: list_all_iff)
qed

section \<open>Idempotence of the reconciliation\<close>


lemma put_idem: "put f (put f x) = put f x"
  by (simp add: put_def split: setter.splits)

lemma update_customer_idem: "update_customer d (update_customer d c) = update_customer d c"
  by (simp add: update_customer_def put_idem)

lemma update_product_idem: "update_product d (update_product d p) = update_product d p"
  by (simp add: update_product_def put_idem)

lemma update_order_idem: "update_order d (update_order d ord) = update_order d ord"
  by (simp add: update_order_def put_idem)

lemma map_update_fixed:
  assumes "\<And>x. x \<in> set xs \<Longrightarrow> P x \<Longrightarrow> g x = x"
  shows "map (\<lambda>x. if P x then g x else x) xs = xs"
  using assms by (induction xs) auto

text \<open>A state the upsert leaves as it is: the row is there, and the update changes nothing.\<close>

lemma customer_upsert_fixpoint:
  assumes "faults s = []"
    and "find (is_customer t sid) (customers s) = Some row"
    and "\<And>x. x \<in> set (customers s) \<Longrightarrow> is_customer t sid x \<Longrightarrow> update_customer u x = x"
  shows "customer_upsert t sid u c s = (Inr row, s)"
proof -
  have "row \<in> set (customers s)" "is_customer t sid row"
    using assms(2) by (auto simp: find_Some_iff)
  then have "update_customer u row = row" by (rule assms(3))
  moreover have "map (\<lambda>x. if is_customer t sid x then update_customer u x else x) (customers s) = customers s"
    by (rule map_update_fixed) (rule assms(3))
  ultimately show ?thesis
    using assms(1,2) by (simp add: customer_upsert_def storage_call_no_faults)
qed

lemma customer_upsert_post:
  assumes nf: "faults s = []"
    and absorb: "\<And>i. update_customer u (new_customer i t sid c) = new_customer i t sid c"
  obtains row s1 where "customer_upsert t sid u c s = (Inr row, s1)"
    and "find (is_customer t sid) (customers s1) = Some row"
    and "\<And>x. x \<in> set (customers s1) \<Longrightarrow> is_customer t sid x \<Longrightarrow> update_customer u x = x"
    and "faults s1 = []" and "products s1 = products s" and "orders s1 = orders s"
    and "tenants s1 = tenants s"
proof (cases "find (is_customer t sid) (customers s)")
  case None
  let ?row = "new_customer (next_id s) t sid c"
  let ?s1 = "s\<lparr>customers := customers s @ [?row], next_id := Suc (next_id s)\<rparr>"
  have none: "\<not> is_customer t sid x" if "x \<in> set (customers s)" for x
    using None that by (auto simp: find_None_iff)
  show ?thesis
  proof (rule that[of ?row ?s1])
    show "customer_upsert t sid u c s = (Inr ?row, ?s1)"
      using nf None by (simp add: customer_upsert_def storage_call_no_faults Let_def)
    show "find (is_customer t sid) (customers ?s1) = Some ?row"
      using None by (simp add: find_append_new is_customer_new)
    show "update_customer u x = x" if "x \<in> set (customers ?s1)" "is_customer t sid x" for x
      using that none absorb by auto
  qed (use nf in simp_all)
next
  case (Some old)
  let ?f = "\<lambda>x. if is_customer t sid x then update_customer u x else x"
  let ?s1 = "s\<lparr>customers := map ?f (customers s)\<rparr>"
  show ?thesis
  proof (rule that[of "update_customer u old" ?s1])
    show "customer_upsert t sid u c s = (Inr (update_customer u old), ?s1)"
      using nf Some by (simp add: customer_upsert_def storage_call_no_faults)
    show "find (is_customer t sid) (customers ?s1) = Some (update_customer u old)"
      using Some by (simp add: find_map_update is_customer_update)
    show "update_customer u x = x" if "x \<in> set (customers ?s1)" "is_customer t sid x" for x
      using that by (auto simp: update_customer_idem is_customer_update split: if_splits)
  qed (use nf in simp_all)
qed

lemma is_product_update: "is_product t sid (update_product d p) = is_product t sid p"
  by (simp add: is_product_def update_product_def)

lemma is_order_update: "is_order t sid (update_order d p) = is_order t sid p"
  by (simp add: is_order_def update_order_def)

lemma product_upsert_fixpoint:
  assumes "faults s = []"
    and "find (is_product t sid) (products s) = Some row"
    and "\<And>x. x \<in> set (products s) \<Longrightarrow> is_product t sid x \<Longrightarrow> update_product u x = x"
  shows "product_upsert t sid u c s = (Inr row, s)"
proof -
  have "row \<in> set (products s)" "is_product t sid row"
    using assms(2) by (auto simp: find_Some_iff)
  then have "update_product u row = row" by (rule assms(3))
  moreover have "map (\<lambda>x. if is_product t sid x then update_product u x else x) (products s) = products s"
    by (rule map_update_fixed) (rule assms(3))
  ultimately show ?thesis
    using assms(1,2) by (simp add: product_upsert_def storage_call_no_faults)
qed

lemma product_upsert_post:
  assumes nf: "faults s = []"
    and new: "new_product (next_id s) t sid c = Some new"
    and absorb: "update_product u new = new"
  obtains row s1 where "product_upsert t sid u c s = (Inr row, s1)"
    and "find (is_product t sid) (products s1) = Some row"
    and "\<And>x. x \<in> set (products s1) \<Longrightarrow> is_product t sid x \<Longrightarrow> update_product u x = x"
    and "faults s1 = []" and "customers s1 = customers s" and "orders s1 = orders s"
    and "tenants s1 = tenants s"
proof (cases "find (is_product t sid) (products s)")
  case None
  let ?s1 = "s\<lparr>products := products s @ [new], next_id := Suc (next_id s)\<rparr>"
  have none: "\<not> is_product t sid x" if "x \<in> set (products s)" for x
    using None that by (auto simp: find_None_iff)
  have isnew: "is_product t sid new"
    using new by (auto simp: new_product_def is_product_def split: setter.splits)
  show ?thesis
  proof (rule that[of new ?s1])
    show "product_upsert t sid u c s = (Inr new, ?s1)"
      using nf None new by (simp add: product_upsert_def storage_call_no_faults)
    show "find (is_product t sid) (products ?s1) = Some new"
      using None isnew by (simp add: find_append_new)
    show "update_product u x = x" if "x \<in> set (products ?s1)" "is_product t sid x" for x
      using that none absorb by auto
  qed (use nf in simp_all)
next
  case (Some old)
  let ?f = "\<lambda>x. if is_product t sid x then update_product u x else x"
  let ?s1 = "s\<lparr>products := map ?f (products s)\<rparr>"
  show ?thesis
  proof (rule that[of "update_product u old" ?s1])
    show "product_upsert t sid u c s = (Inr (update_product u old), ?s1)"
      using nf Some by (simp add: product_upsert_def storage_call_no_faults)
    show "find (is_product t sid) (products ?s1) = Some (update_product u old)"
      using Some by (simp add: find_map_update is_product_update)
    show "update_product u x = x" if "x \<in> set (products ?s1)" "is_product t sid x" for x
      using that by (auto simp: update_product_idem is_product_update split: if_splits)
  qed (use nf in simp_all)
qed

lemma order_upsert_fixpoint:
  assumes "faults s = []"
    and "find (is_order t sid) (orders s) = Some row"
    and "\<And>x. x \<in> set (orders s) \<Longrightarrow> is_order t sid x \<Longrightarrow> update_order u x = x"
  shows "order_upsert t sid u c s = (Inr row, s)"
proof -
  have "row \<in> set (orders s)" "is_order t sid row"
    using assms(2) by (auto simp: find_Some_iff)
  then have "update_order u row = row" by (rule assms(3))
  moreover have "map (\<lambda>x. if is_order t sid x then update_order u x else x) (orders s) = orders s"
    by (rule map_update_fixed) (rule assms(3))
  ultimately show ?thesis
    using assms(1,2) by (simp add: order_upsert_def storage_call_no_faults)
qed

lemma order_upsert_post:
  assumes nf: "faults s = []"
    and new: "new_order (next_id s) t sid c = Some new"
    and absorb: "update_order u new = new"
  obtains row s1 where "order_upsert t sid u c s = (Inr row, s1)"
    and "find (is_order t sid) (orders s1) = Some row"
    and "\<And>x. x \<in> set (orders s1) \<Longrightarrow> is_order t sid x \<Longrightarrow> update_order u x = x"
    and "faults s1 = []" and "customers s1 = customers s" and "products s1 = products s"
    and "tenants s1 = tenants s"
proof (cases "find (is_order t sid) (orders s)")
  case None
  let ?s1 = "s\<lparr>orders := orders s @ [new], next_id := Suc (next_id s)\<rparr>"
  have none: "\<not> is_order t sid x" if "x \<in> set (orders s)" for x
    using None that by (auto simp: find_None_iff)
  have isnew: "is_order t sid new"
    using new by (auto simp: new_order_def is_order_def split: setter.splits)
  show ?thesis
  proof (rule that[of new ?s1])
    show "order_upsert t sid u c s = (Inr new, ?s1)"
      using nf None new by (simp add: order_upsert_def storage_call_no_faults)
    show "find (is_order t sid) (orders ?s1) = Some new"
      using None isnew by (simp add: find_append_new)
    show "update_order u x = x" if "x \<in> set (orders ?s1)" "is_order t sid x" for x
      using that none absorb by auto
  qed (use nf in simp_all)
next
  case (Some old)
  let ?f = "\<lambda>x. if is_order t sid x then update_order u x else x"
  let ?s1 = "s\<lparr>orders := map ?f (orders s)\<rparr>"
  show ?thesis
  proof (rule that[of "update_order u old" ?s1])
    show "order_upsert t sid u c s = (Inr (update_order u old), ?s1)"
      using nf Some by (simp add: order_upsert_def storage_call_no_faults)
    show "find (is_order t sid) (orders ?s1) = Some (update_order u old)"
      using Some by (simp add: find_map_update is_order_update)
    show "update_order u x = x" if "x \<in> set (orders ?s1)" "is_order t sid x" for x
      using that by (auto simp: update_order_idem is_order_update split: if_splits)
  qed (use nf in simp_all)
qed



lemma sync_customer_data_absorb:
  "update_customer (sync_customer_data c) (new_customer i t sid (sync_customer_data c))
     = new_customer i t sid (sync_customer_data c)"
  by (simp add: update_customer_def new_customer_def put_idem)

lemma webhook_customer_absorb:
  "update_customer (webhook_customer_update ec) (new_customer i t sid (webhook_customer_create ec))
     = new_customer i t sid (webhook_customer_create ec)"
  by (simp add: update_customer_def new_customer_def webhook_customer_update_def
      webhook_customer_create_def put_idem)
     (simp add: put_def keep_absent_def split: option.splits)

lemma sync_product_data_new:
  obtains new where "new_product i t sid (sync_product_data p) = Some new"
    and "update_product (sync_product_data p) new = new"
    and "update_product (webhook_product_update p) new = new"
proof -
  let ?new = "\<lparr>p_id = i, p_tenantId = t, p_shopifyProductId = sid,
               p_title = or_default (r_title p) ''Untitled'', p_sku = variant_sku p,
               p_price = variant_price p, p_createdAt = put (date_field (r_created_at p)) None\<rparr>"
  have 1: "new_product i t sid (sync_product_data p) = Some ?new"
    by (simp add: new_product_def sync_product_data_def put_def)
  have 2: "update_product (sync_product_data p) ?new = ?new"
    by (simp add: update_product_def sync_product_data_def put_idem) (simp add: put_def)
  have 3: "update_product (webhook_product_update p) ?new = ?new"
    by (simp add: update_product_def webhook_product_update_def put_idem)
       (simp add: put_def or_default_def split: option.splits)
  from 1 2 3 that show thesis by blast
qed

lemma order_data_new:
  obtains new where "new_order i t sid (order_data_of ord cid) = Some new"
    and "update_order (order_data_of ord cid) new = new"
proof -
  let ?d = "order_data_of ord cid"
  let ?new = "\<lparr>o_id = i, o_tenantId = t, o_shopifyOrderId = sid,
               o_orderNumber = put (od_orderNumber ?d) None,
               o_totalPrice = or_default (r_total_price ord) ''0.00'',
               o_currency = put (od_currency ?d) None, o_createdAt = put (od_createdAt ?d) None,
               o_customerId = put (od_customerId ?d) None\<rparr>"
  have 1: "new_order i t sid ?d = Some ?new"
    by (simp add: new_order_def order_data_of_def)
  have 2: "update_order ?d ?new = ?new"
    by (simp add: update_order_def put_idem) (simp add: order_data_of_def put_def)
  from 1 2 that show thesis by blast
qed

lemma sync_product_idem:
  assumes "faults s = []"
  shows "sync_product t p (snd (sync_product t p s)) = sync_product t p s"
proof -
  let ?sid = "js_String (r_id p)" and ?d = "sync_product_data p"
  obtain new where n: "new_product (next_id s) t ?sid ?d = Some new" "update_product ?d new = new"
    by (rule sync_product_data_new)
  from product_upsert_post[OF assms n] obtain row s1 where
    1: "product_upsert t ?sid ?d ?d s = (Inr row, s1)"
    and 2: "find (is_product t ?sid) (products s1) = Some row"
    and 3: "\<And>x. x \<in> set (products s1) \<Longrightarrow> is_product t ?sid x \<Longrightarrow> update_product ?d x = x"
    and 4: "faults s1 = []"
    by blast
  have "product_upsert t ?sid ?d ?d s1 = (Inr row, s1)"
    by (rule product_upsert_fixpoint[OF 4 2 3])
  with 1 show ?thesis by (simp add: sync_product_def)
qed

lemma sync_customer_idem:
  assumes "faults s = []"
  shows "sync_customer t c (snd (sync_customer t c s)) = sync_customer t c s"
proof -
  let ?sid = "js_String (r_id c)" and ?d = "sync_customer_data c"
  from customer_upsert_post[OF assms sync_customer_data_absorb, of t ?sid c] obtain row s1 where
    1: "customer_upsert t ?sid ?d ?d s = (Inr row, s1)"
    and 2: "find (is_customer t ?sid) (customers s1) = Some row"
    and 3: "\<And>x. x \<in> set (customers s1) \<Longrightarrow> is_customer t ?sid x \<Longrightarrow> update_customer ?d x = x"
    and 4: "faults s1 = []"
    by blast
  have "customer_upsert t ?sid ?d ?d s1 = (Inr row, s1)"
    by (rule customer_upsert_fixpoint[OF 4 2 3])
  with 1 show ?thesis by (simp add: sync_customer_def)
qed

lemma customer_findFirst_no_faults:
  "faults s = [] \<Longrightarrow> customer_findFirst t sid s = (Inr (find (is_customer t sid) (customers s)), s)"
  by (simp add: customer_findFirst_def storage_call_no_faults)

lemma resolve_customer_no_faults:
  "faults s = [] \<Longrightarrow> resolve_customer t ord s = (Inr (map_option c_id (customer_ref t ord (customers s))), s)"
  by (simp add: resolve_customer_def customer_ref_def customer_findFirst_no_faults split: option.splits)

lemma sync_order_no_faults:
  assumes "faults s = []"
  shows "sync_order t ord s =
     (case order_upsert t (js_String (r_id ord))
              (order_data_of ord (map_option c_id (customer_ref t ord (customers s))))
              (order_data_of ord (map_option c_id (customer_ref t ord (customers s)))) s of
        (Inr _, s2) \<Rightarrow> (True, s2)
      | (Inl e, s2) \<Rightarrow> (False, s2))"
  by (simp add: sync_order_def resolve_customer_no_faults[OF assms])

lemma sync_order_idem:
  assumes "faults s = []"
  shows "sync_order t ord (snd (sync_order t ord s)) = sync_order t ord s"
proof -
  let ?sid = "js_String (r_id ord)"
  let ?d = "order_data_of ord (map_option c_id (customer_ref t ord (customers s)))"
  obtain new where n: "new_order (next_id s) t ?sid ?d = Some new" "update_order ?d new = new"
    by (rule order_data_new)
  from order_upsert_post[OF assms n] obtain row s1 where
    1: "order_upsert t ?sid ?d ?d s = (Inr row, s1)"
    and 2: "find (is_order t ?sid) (orders s1) = Some row"
    and 3: "\<And>x. x \<in> set (orders s1) \<Longrightarrow> is_order t ?sid x \<Longrightarrow> update_order ?d x = x"
    and 4: "faults s1 = []" and 5: "customers s1 = customers s"
    by blast
  have "order_upsert t ?sid ?d ?d s1 = (Inr row, s1)"
    by (rule order_upsert_fixpoint[OF 4 2 3])
  with 1 show ?thesis
    by (simp add: sync_order_no_faults[OF assms] sync_order_no_faults[OF 4] 5)
qed

lemma dispatch_idem:
  assumes nf: "faults s = []"
  shows "dispatch t topic payload (snd (dispatch t topic payload s)) = dispatch t topic payload s
       \<and> faults (snd (dispatch t topic payload s)) = []
       \<and> tenants (snd (dispatch t topic payload s)) = tenants s"
proof -
  let ?sid = "js_String (r_id payload)"
  consider (orders) "prefix ''orders/'' topic"
    | (customers) "\<not> prefix ''orders/'' topic" "topic = ''customers/create'' \<or> topic = ''customers/update''"
    | (products) "\<not> prefix ''orders/'' topic" "\<not> (topic = ''customers/create'' \<or> topic = ''customers/update'')"
        "topic = ''products/create'' \<or> topic = ''products/update''"
    | (other) "\<not> prefix ''orders/'' topic" "\<not> (topic = ''customers/create'' \<or> topic = ''customers/update'')"
        "\<not> (topic = ''products/create'' \<or> topic = ''products/update'')"
    by blast
  then show ?thesis
  proof cases
    case other
    then show ?thesis using nf by (simp add: dispatch_def)
  next
    case customers
    let ?u = "webhook_customer_update (payload_customer payload)"
    let ?c = "webhook_customer_create (payload_customer payload)"
    from customer_upsert_post[OF nf webhook_customer_absorb, of t ?sid "payload_customer payload"]
    obtain row s1 where
      1: "customer_upsert t ?sid ?u ?c s = (Inr row, s1)"
      and 2: "find (is_customer t ?sid) (customers s1) = Some row"
      and 3: "\<And>x. x \<in> set (customers s1) \<Longrightarrow> is_customer t ?sid x \<Longrightarrow> update_customer ?u x = x"
      and 4: "faults s1 = []" and 5: "tenants s1 = tenants s"
      by blast
    have "customer_upsert t ?sid ?u ?c s1 = (Inr row, s1)"
      by (rule customer_upsert_fixpoint[OF 4 2 3])
    with 1 4 5 customers show ?thesis by (simp add: dispatch_def map_result_def)
  next
    case products
    let ?u = "webhook_product_update payload" and ?c = "sync_product_data payload"
    obtain new where n: "new_product (next_id s) t ?sid ?c = Some new" "update_product ?u new = new"
      by (rule sync_product_data_new)
    from product_upsert_post[OF nf n] obtain row s1 where
      1: "product_upsert t ?sid ?u ?c s = (Inr row, s1)"
      and 2: "find (is_product t ?sid) (products s1) = Some row"
      and 3: "\<And>x. x \<in> set (products s1) \<Longrightarrow> is_product t ?sid x \<Longrightarrow> update_product ?u x = x"
      and 4: "faults s1 = []" and 5: "tenants s1 = tenants s"
      by blast
    have "product_upsert t ?sid ?u ?c s1 = (Inr row, s1)"
      by (rule product_upsert_fixpoint[OF 4 2 3])
    with 1 4 5 products show ?thesis by (simp add: dispatch_def map_result_def)
  next
    case orders
    have "\<exists>cid s1. webhook_order_customer t payload s = (Inr cid, s1) \<and> faults s1 = []
            \<and> tenants s1 = tenants s
            \<and> (\<forall>s2. customers s2 = customers s1 \<longrightarrow> faults s2 = [] \<longrightarrow>
                   webhook_order_customer t payload s2 = (Inr cid, s2))"
    proof (cases "\<exists>ec. r_customer payload = Some ec \<and> js_truthy (ec_id ec)")
      case False
      then have "webhook_order_customer t payload s' = (Inr None, s')" for s'
        by (auto simp: webhook_order_customer_def split: option.splits)
      then show ?thesis using nf by auto
    next
      case True
      then obtain ec where ec: "r_customer payload = Some ec" "js_truthy (ec_id ec)"
        by blast
      let ?cs = "js_String (ec_id ec)"
      from customer_upsert_post[OF nf webhook_customer_absorb, of t ?cs ec]
      obtain row s1 where
        1: "customer_upsert t ?cs (webhook_customer_update ec) (webhook_customer_create ec) s = (Inr row, s1)"
        and 2: "find (is_customer t ?cs) (customers s1) = Some row"
        and 3: "\<And>x. x \<in> set (customers s1) \<Longrightarrow> is_customer t ?cs x \<Longrightarrow> update_customer (webhook_customer_update ec) x = x"
        and 4: "faults s1 = []" and 5: "tenants s1 = tenants s"
        by blast
      have "webhook_order_customer t payload s2 = (Inr (Some (c_id row)), s2)"
        if "customers s2 = customers s1" "faults s2 = []" for s2
      proof -
        have "customer_upsert t ?cs (webhook_customer_update ec) (webhook_customer_create ec) s2 = (Inr row, s2)"
          by (rule customer_upsert_fixpoint) (use that 2 3 in auto)
        then show ?thesis using ec by (simp add: webhook_order_customer_def)
      qed
      moreover have "webhook_order_customer t payload s = (Inr (Some (c_id row)), s1)"
        using 1 ec by (simp add: webhook_order_customer_def)
      ultimately show ?thesis using 4 5 by blast
    qed
    then obtain cid s1 where
      w1: "webhook_order_customer t payload s = (Inr cid, s1)" and w2: "faults s1 = []"
      and w3: "tenants s1 = tenants s"
      and w4: "\<And>s2. customers s2 = customers s1 \<Longrightarrow> faults s2 = [] \<Longrightarrow>
                   webhook_order_customer t payload s2 = (Inr cid, s2)"
      by blast
    let ?d = "order_data_of payload cid"
    obtain new where n: "new_order (next_id s1) t ?sid ?d = Some new" "update_order ?d new = new"
      by (rule order_data_new)
    from order_upsert_post[OF w2 n] obtain row s2 where
      1: "order_upsert t ?sid ?d ?d s1 = (Inr row, s2)"
      and 2: "find (is_order t ?sid) (orders s2) = Some row"
      and 3: "\<And>x. x \<in> set (orders s2) \<Longrightarrow> is_order t ?sid x \<Longrightarrow> update_order ?d x = x"
      and 4: "faults s2 = []" and 5: "customers s2 = customers s1" and 6: "tenants s2 = tenants s1"
      by blast
    have again: "order_upsert t ?sid ?d ?d s2 = (Inr row, s2)"
      by (rule order_upsert_fixpoint[OF 4 2 3])
    have first: "dispatch t topic payload s = (Inr (), s2)"
      using orders w1 1 by (simp add: dispatch_def map_result_def)
    have "dispatch t topic payload s2 = (Inr (), s2)"
      using orders w4[OF 5 4] again by (simp add: dispatch_def map_result_def)
    with first 4 6 w3 show ?thesis by simp
  qed
qed

lemma tenant_findUnique_shop_no_faults:
  "faults s = [] \<Longrightarrow> tenant_findUnique_shop shop s = (Inr (find (\<lambda>t. t_shop t = shop) (tenants s)), s)"
  by (simp add: tenant_findUnique_shop_def storage_call_no_faults)

lemma processWebhookPayload_idem:
  assumes nf: "faults s = []"
  shows "processWebhookPayload topic shop payload (snd (processWebhookPayload topic shop payload s))
           = processWebhookPayload topic shop payload s"
proof (cases "find (\<lambda>t. t_shop t = shop) (tenants s)")
  case None
  then show ?thesis using nf by (simp add: processWebhookPayload_def tenant_findUnique_shop_no_faults)
next
  case (Some tenant)
  let ?s1 = "snd (dispatch (t_id tenant) topic payload s)"
  from dispatch_idem[OF nf, of "t_id tenant" topic payload]
  have d: "dispatch (t_id tenant) topic payload ?s1 = dispatch (t_id tenant) topic payload s"
    and f: "faults ?s1 = []" and t: "tenants ?s1 = tenants s"
    by auto
  have 1: "processWebhookPayload topic shop payload s = (Inr (), ?s1)"
    using nf Some by (simp add: processWebhookPayload_def tenant_findUnique_shop_no_faults)
  have 2: "processWebhookPayload topic shop payload ?s1 = (Inr (), ?s1)"
    using f t Some d by (simp add: processWebhookPayload_def tenant_findUnique_shop_no_faults)
  from 1 2 show ?thesis by simp
qed

section \<open>Isolation and idempotence on the example data\<close>


lemma wf_two_tenant_store: "wf_store two_tenant_store"
  by (simp add: wf_store_def ids_ok_def keys_unique_def refs_same_tenant_def ref_ok_def two_tenant_store_def)

lemma wf_linked_order_store: "wf_store linked_order_store"
  by (simp add: wf_store_def ids_ok_def keys_unique_def refs_same_tenant_def ref_ok_def linked_order_store_def)

lemma js_String_5001: "js_String (JNum 5001) = ''5001''"
  by (simp add: js_String_def string_of_nat.simps digit_char_def)

lemma js_String_77: "js_String (JNum 77) = ''77''"
  by (simp add: js_String_def string_of_nat.simps digit_char_def)

theorem tenant_isolation_witness:
  "tenant_rows 2 (snd (fullSync 1 empty_api two_tenant_store)) = tenant_rows 2 two_tenant_store
   \<and> refs_same_tenant (snd (fullSync 1 empty_api two_tenant_store))
   \<and> tenant_rows 2 (snd (processWebhookPayload ''customers/create'' ''a.myshopify.com'' customer_100 two_tenant_store))
       = tenant_rows 2 two_tenant_store"
proof -
  have "(2::nat) \<noteq> 1" by simp
  moreover have "map_option t_id (find (\<lambda>tn. t_shop tn = ''a.myshopify.com'') (tenants two_tenant_store)) \<noteq> Some 2"
    by (simp add: two_tenant_store_def)
  ultimately show ?thesis
    using tenant_isolation[OF wf_two_tenant_store, of 2 1 "''a.myshopify.com''" empty_api "''customers/create''" customer_100]
    by blast
qed

text \<open>
  C1. On an intact store and with no storage failure, applying one remote record a
  second time changes nothing, and returns what the first application returned; this
  holds for the product, customer and order step of \<open>fullSync\<close> and for
  \<open>processWebhookPayload\<close> with any topic. After an application every row that was
  there is still there with its primary key, tenant id and remote id, and each of the
  three tables still has at most one row for a natural key.
\<close>

theorem reconciliation_idempotent:
  assumes "faults s = []" and "wf_store s"
  shows "sync_product t r (snd (sync_product t r s)) = sync_product t r s
       \<and> sync_customer t r (snd (sync_customer t r s)) = sync_customer t r s
       \<and> sync_order t r (snd (sync_order t r s)) = sync_order t r s
       \<and> processWebhookPayload topic shop r (snd (processWebhookPayload topic shop r s))
           = processWebhookPayload topic shop r s
       \<and> keys_kept s (snd (sync_product t r s)) \<and> keys_unique (snd (sync_product t r s))
       \<and> keys_kept s (snd (sync_customer t r s)) \<and> keys_unique (snd (sync_customer t r s))
       \<and> keys_kept s (snd (sync_order t r s)) \<and> keys_unique (snd (sync_order t r s))
       \<and> keys_kept s (snd (processWebhookPayload topic shop r s))
       \<and> keys_unique (snd (processWebhookPayload topic shop r s))"
proof -
  have kk: "keys_kept s s' \<and> keys_unique s'" if "evolves t s s'" for s'
    using that by (simp add: evolves_def wf_store_def)
  obtain t2 where "map_option t_id (find (\<lambda>tn. t_shop tn = shop) (tenants s)) \<noteq> Some t2"
    by (metis option.inject lessI less_irrefl)
  from evolves_processWebhookPayload[OF assms(2) this, of topic r]
  have w: "keys_kept s (snd (processWebhookPayload topic shop r s))"
    "keys_unique (snd (processWebhookPayload topic shop r s))"
    by (simp_all add: wf_store_def)
  show ?thesis
    using sync_product_idem[OF assms(1)] sync_customer_idem[OF assms(1)] sync_order_idem[OF assms(1)]
      processWebhookPayload_idem[OF assms(1)]
      kk[OF evolves_sync_product[OF assms(2)]] kk[OF evolves_sync_customer[OF assms(2)]]
      kk[OF evolves_sync_order[OF assms(2)]] w
    by simp
qed

theorem reconciliation_idempotent_witness:
  "sync_customer 1 customer_100 (snd (sync_customer 1 customer_100 two_tenant_store))
     = sync_customer 1 customer_100 two_tenant_store
   \<and> sync_order 1 order_5001 (snd (sync_order 1 order_5001 two_tenant_store))
     = sync_order 1 order_5001 two_tenant_store
   \<and> keys_kept two_tenant_store (snd (sync_customer 1 customer_100 two_tenant_store))
   \<and> keys_unique (snd (sync_customer 1 customer_100 two_tenant_store))"
proof -
  have nf: "faults two_tenant_store = []" by (simp add: two_tenant_store_def)
  from reconciliation_idempotent[OF nf wf_two_tenant_store, of 1 customer_100]
       reconciliation_idempotent[OF nf wf_two_tenant_store, of 1 order_5001]
  show ?thesis by blast
qed



section \<open>The customer reference of an order\<close>

lemma order_upsert_stored:
  assumes nf: "faults s = []" and new: "new_order (next_id s) t sid c = Some new"
  shows "(\<exists>row. fst (order_upsert t sid u c s) = Inr row)
       \<and> find (is_order t sid) (orders (snd (order_upsert t sid u c s)))
           = (case find (is_order t sid) (orders s) of
                Some old \<Rightarrow> Some (update_order u old)
              | None \<Rightarrow> Some new)
       \<and> customers (snd (order_upsert t sid u c s)) = customers s"
proof (cases "find (is_order t sid) (orders s)")
  case None
  have "is_order t sid new"
    using new by (auto simp: new_order_def is_order_def split: setter.splits)
  then show ?thesis using nf new None
    by (simp add: order_upsert_def storage_call_no_faults find_append_new)
next
  case (Some old)
  then show ?thesis using nf
    by (simp add: order_upsert_def storage_call_no_faults find_map_update is_order_update)
qed

lemma sync_order_stored:
  assumes nf: "faults s = []"
  shows "fst (sync_order t ord s)
       \<and> map_option o_customerId (find (is_order t (js_String (r_id ord))) (orders (snd (sync_order t ord s))))
           = Some (case customer_ref t ord (customers s) of
                     Some c \<Rightarrow> Some (c_id c)
                   | None \<Rightarrow>
                       (case find (is_order t (js_String (r_id ord))) (orders s) of
                          Some old \<Rightarrow> o_customerId old
                        | None \<Rightarrow> None))"
proof -
  let ?sid = "js_String (r_id ord)"
  let ?cid = "map_option c_id (customer_ref t ord (customers s))"
  let ?d = "order_data_of ord ?cid"
  obtain new where n: "new_order (next_id s) t ?sid ?d = Some new" "update_order ?d new = new"
    by (rule order_data_new)
  have newc: "o_customerId new = ?cid"
    using n(1) by (auto simp: new_order_def order_data_of_def put_def keep_absent_def
        split: setter.splits option.splits)
  have updc: "o_customerId (update_order (order_data_of ord cid) old)
      = (case cid of Some i \<Rightarrow> Some i | None \<Rightarrow> o_customerId old)" for old cid
    by (simp add: update_order_def order_data_of_def put_def keep_absent_def split: option.splits)
  obtain r s2 where up: "order_upsert t ?sid ?d ?d s = (r, s2)" by force
  from order_upsert_stored[OF nf n(1), where u = ?d] up
  have ok: "\<exists>row. r = Inr row"
    and st: "find (is_order t ?sid) (orders s2)
           = (case find (is_order t ?sid) (orders s) of Some old \<Rightarrow> Some (update_order ?d old) | None \<Rightarrow> Some new)"
    by auto
  from ok obtain row where r: "r = Inr row" by blast
  have run: "sync_order t ord s = (True, s2)"
    using up r by (simp add: sync_order_no_faults[OF nf])
  show ?thesis
    by (auto simp: run st newc updc split: option.splits)
qed

text \<open>
  C8, as stated, fails where it says that an order whose customer has no row is stored
  with no customer reference. With \<open>fullSync\<close>, an order that is already stored keeps
  the reference it has: here the stored order \<open>5001\<close> keeps its reference to the row of
  the remote customer \<open>78\<close> though the remote order now names the customer \<open>77\<close>, who
  has no row. With the webhook dispatcher, the embedded customer is upserted first, so
  the order refers to the row just created.
\<close>

theorem order_without_customer_row_counterexample:
  "find (is_customer 1 ''77'') (customers linked_order_store) = None
   \<and> map_option o_customerId
        (find (is_order 1 ''5001'') (orders (snd (sync_order 1 order_5001 linked_order_store))))
      = Some (Some 10)
   \<and> find (is_customer 1 ''77'') (customers two_tenant_store) = None
   \<and> map_option o_customerId
        (find (is_order 1 ''5001'')
           (orders (snd (processWebhookPayload ''orders/create'' ''a.myshopify.com'' order_5001
                           two_tenant_store))))
      = Some (Some 12)"
proof -
  have a: "map_option o_customerId
        (find (is_order 1 ''5001'') (orders (snd (sync_order 1 order_5001 linked_order_store))))
      = Some (Some 10)"
    by (simp add: sync_order_no_faults linked_order_store_def order_5001_def empty_object_def
        customer_ref_def js_truthy_def js_String_5001 js_String_77 is_customer_def is_order_def
        order_upsert_def storage_call_def order_data_of_def update_order_def put_def keep_absent_def)
  have b: "map_option o_customerId
        (find (is_order 1 ''5001'')
           (orders (snd (processWebhookPayload ''orders/create'' ''a.myshopify.com'' order_5001
                           two_tenant_store))))
      = Some (Some 12)"
    by (simp add: processWebhookPayload_def tenant_findUnique_shop_def dispatch_def
        webhook_order_customer_def customer_upsert_def order_upsert_def map_result_def
        two_tenant_store_def order_5001_def empty_object_def storage_call_def
        js_truthy_def js_String_5001 js_String_77 is_customer_def is_order_def
        order_data_of_def new_order_def new_customer_def webhook_customer_create_def
        put_def keep_absent_def or_default_def date_field_def truthy_text_def Let_def)
  show ?thesis
    using a b by (simp add: linked_order_store_def two_tenant_store_def is_customer_def)
qed



lemma dispatch_orders_stored:
  assumes nf: "faults s = []" and ec: "r_customer ord = Some ec" "js_truthy (ec_id ec)"
    and topic: "prefix ''orders/'' topic"
  shows "find (is_customer t (js_String (ec_id ec))) (customers (snd (dispatch t topic ord s))) \<noteq> None
       \<and> map_option o_customerId
            (find (is_order t (js_String (r_id ord))) (orders (snd (dispatch t topic ord s))))
          = Some (map_option c_id
                    (find (is_customer t (js_String (ec_id ec))) (customers (snd (dispatch t topic ord s)))))"
proof -
  let ?cs = "js_String (ec_id ec)" and ?sid = "js_String (r_id ord)"
  from customer_upsert_post[OF nf webhook_customer_absorb, of t ?cs ec]
  obtain cust s1 where
    1: "customer_upsert t ?cs (webhook_customer_update ec) (webhook_customer_create ec) s = (Inr cust, s1)"
    and 2: "find (is_customer t ?cs) (customers s1) = Some cust"
    and 4: "faults s1 = []"
    by blast
  let ?d = "order_data_of ord (Some (c_id cust))"
  obtain new where n: "new_order (next_id s1) t ?sid ?d = Some new" "update_order ?d new = new"
    by (rule order_data_new)
  have newc: "o_customerId new = Some (c_id cust)"
    using n(1) by (auto simp: new_order_def order_data_of_def put_def keep_absent_def
        split: setter.splits)
  have updc: "o_customerId (update_order ?d old) = Some (c_id cust)" for old
    by (simp add: update_order_def order_data_of_def put_def keep_absent_def)
  obtain r s2 where up: "order_upsert t ?sid ?d ?d s1 = (r, s2)" by force
  from order_upsert_stored[OF 4 n(1), where u = ?d] up
  have st: "find (is_order t ?sid) (orders s2)
           = (case find (is_order t ?sid) (orders s1) of Some old \<Rightarrow> Some (update_order ?d old) | None \<Rightarrow> Some new)"
    and cs: "customers s2 = customers s1"
    by auto
  have run: "snd (dispatch t topic ord s) = s2"
    using topic ec 1 up by (simp add: dispatch_def webhook_order_customer_def snd_map_result)
  show ?thesis
    by (auto simp: run st cs 2 newc updc split: option.splits)
qed

text \<open>
  C8, amended. Let an order record name a customer with a truthy remote id, and let no
  storage call fail. In \<open>fullSync\<close> the order is stored without an error, and its
  customer reference is the local id of the tenant's row for that remote id when there
  is such a row; when there is none, a new order has no reference and an order that was
  already stored keeps the reference it had. In the webhook dispatcher (a topic
  \<open>orders/...\<close> of a known shop) the embedded customer is upserted first, so afterwards
  the row exists and the stored order refers to it.
\<close>

theorem order_customer_reference:
  assumes "faults s = []" and "r_customer ord = Some ec" and "js_truthy (ec_id ec)"
    and "prefix ''orders/'' topic" and "find (\<lambda>tn. t_shop tn = shop) (tenants s) = Some tenant"
  shows "fst (sync_order t ord s)
       \<and> map_option o_customerId
            (find (is_order t (js_String (r_id ord))) (orders (snd (sync_order t ord s))))
          = Some (case find (is_customer t (js_String (ec_id ec))) (customers s) of
                    Some c \<Rightarrow> Some (c_id c)
                  | None \<Rightarrow>
                      (case find (is_order t (js_String (r_id ord))) (orders s) of
                         Some old \<Rightarrow> o_customerId old
                       | None \<Rightarrow> None))
       \<and> fst (processWebhookPayload topic shop ord s) = Inr ()
       \<and> find (is_customer (t_id tenant) (js_String (ec_id ec)))
            (customers (snd (processWebhookPayload topic shop ord s))) \<noteq> None
       \<and> map_option o_customerId
            (find (is_order (t_id tenant) (js_String (r_id ord)))
               (orders (snd (processWebhookPayload topic shop ord s))))
          = Some (map_option c_id
                    (find (is_customer (t_id tenant) (js_String (ec_id ec)))
                       (customers (snd (processWebhookPayload topic shop ord s)))))"
proof -
  have ref: "customer_ref t ord (customers s) = find (is_customer t (js_String (ec_id ec))) (customers s)"
    using assms(2,3) by (simp add: customer_ref_def)
  have run: "processWebhookPayload topic shop ord s = (Inr (), snd (dispatch (t_id tenant) topic ord s))"
    using assms(1,5) by (simp add: processWebhookPayload_def tenant_findUnique_shop_no_faults)
  show ?thesis
    using sync_order_stored[OF assms(1), of t ord]
      dispatch_orders_stored[OF assms(1-4), of "t_id tenant"]
    by (simp add: ref run)
qed

theorem order_customer_reference_witness:
  "fst (sync_order 1 order_5001 two_tenant_store)
   \<and> map_option o_customerId
        (find (is_order 1 ''5001'') (orders (snd (sync_order 1 order_5001 two_tenant_store))))
      = Some None
   \<and> fst (processWebhookPayload ''orders/create'' ''a.myshopify.com'' order_5001 two_tenant_store) = Inr ()
   \<and> find (is_customer 1 ''77'')
        (customers (snd (processWebhookPayload ''orders/create'' ''a.myshopify.com'' order_5001
                           two_tenant_store))) \<noteq> None"
proof -
  let ?ec = "\<lparr>ec_id = JNum 77, ec_email = None, ec_first_name = None,
               ec_last_name = None, ec_created_at = None, ec_updated_at = None\<rparr>"
  let ?tn = "\<lparr>t_id = 1, t_shop = ''a.myshopify.com'', t_accessToken = Some ''shpat_a'', t_webhookSecret = None\<rparr>"
  have 1: "faults two_tenant_store = []" by (simp add: two_tenant_store_def)
  have 2: "r_customer order_5001 = Some ?ec" by (simp add: order_5001_def)
  have 3: "js_truthy (ec_id ?ec)" by (simp add: js_truthy_def)
  have 4: "prefix ''orders/'' ''orders/create''" by simp
  have 5: "find (\<lambda>tn. t_shop tn = ''a.myshopify.com'') (tenants two_tenant_store) = Some ?tn"
    by (simp add: two_tenant_store_def)
  have id: "js_String (r_id order_5001) = ''5001''"
    by (simp add: order_5001_def js_String_5001)
  have none: "find (is_customer 1 ''77'') (customers two_tenant_store) = None"
    "find (is_order 1 ''5001'') (orders two_tenant_store) = None"
    by (simp_all add: two_tenant_store_def is_customer_def is_order_def)
  from order_customer_reference[OF 1 2 3 4 5, of 1]
  show ?thesis by (simp add: id js_String_77 none del: One_nat_def)
qed

section \<open>The fallback of the customer loop\<close>

text \<open>
  C10. On an intact store, when the upsert of a customer record fails and no later
  storage call does, the fallback (look the row up by tenant id and remote customer id,
  update it by its id when found, create it otherwise) counts the record and leaves the
  store exactly as a successful upsert of the record would have left it.
\<close>

theorem customer_fallback_refines_upsert:
  assumes wf: "wf_store s" and nf: "faults s = []"
  shows "customer_fallback t sid d s = (True, snd (customer_upsert t sid d d s))
       \<and> sync_customer t c (s\<lparr>faults := [True]\<rparr>) = sync_customer t c s"
proof -
  have fb: "customer_fallback t sid d s = (True, snd (customer_upsert t sid d d s))" for sid d
  proof (cases "find (is_customer t sid) (customers s)")
    case None
    then show ?thesis using nf
      by (simp add: customer_fallback_def customer_findFirst_no_faults customer_create_def
          customer_upsert_def storage_call_no_faults Let_def)
  next
    case (Some existing)
    then have ex: "existing \<in> set (customers s)" "is_customer t sid existing"
      by (auto simp: find_Some_iff)
    have same: "(c_id x = c_id existing) = is_customer t sid x" if "x \<in> set (customers s)" for x
    proof
      assume "c_id x = c_id existing"
      with wf that ex(1) have "x = existing"
        by (auto simp: wf_store_def ids_ok_def distinct_map inj_on_def)
      with ex(2) show "is_customer t sid x" by simp
    next
      assume "is_customer t sid x"
      with ex(2) have "(c_tenantId x, c_shopifyCustomerId x) = (c_tenantId existing, c_shopifyCustomerId existing)"
        by (simp add: is_customer_def)
      with wf that ex(1) have "x = existing"
        by (auto simp: wf_store_def keys_unique_def distinct_map inj_on_def)
      then show "c_id x = c_id existing" by simp
    qed
    have m: "map (\<lambda>x. if c_id x = c_id existing then update_customer d x else x) (customers s)
           = map (\<lambda>x. if is_customer t sid x then update_customer d x else x) (customers s)"
      by (rule map_cong) (simp_all add: same)
    have f: "find (\<lambda>x. c_id x = c_id existing) (customers s) \<noteq> None"
      using ex(1) by (auto simp: find_None_iff)
    show ?thesis using nf Some m f
      by (auto simp: customer_fallback_def customer_findFirst_no_faults customer_update_def
          customer_upsert_def storage_call_no_faults)
  qed
  have s: "s\<lparr>faults := []\<rparr> = s" using nf by simp
  have ok: "\<exists>row. fst (customer_upsert t sid d d s) = Inr row" for sid d
    using nf by (auto simp: customer_upsert_def storage_call_no_faults Let_def split: option.splits)
  have lhs: "sync_customer t c (s\<lparr>faults := [True]\<rparr>)
      = customer_fallback t (js_String (r_id c)) (sync_customer_data c) s"
    by (simp add: sync_customer_def customer_upsert_def storage_call_def s)
  have rhs: "sync_customer t c s
      = (True, snd (customer_upsert t (js_String (r_id c)) (sync_customer_data c) (sync_customer_data c) s))"
    using ok[of "js_String (r_id c)" "sync_customer_data c"]
    by (auto simp: sync_customer_def split: prod.splits sum.splits)
  show ?thesis using fb lhs rhs by simp
qed

theorem customer_fallback_refines_upsert_witness:
  "customer_fallback 2 ''100'' (sync_customer_data customer_100) two_tenant_store
     = (True, snd (customer_upsert 2 ''100'' (sync_customer_data customer_100)
                     (sync_customer_data customer_100) two_tenant_store))
   \<and> sync_customer 1 customer_100 (two_tenant_store\<lparr>faults := [True]\<rparr>)
     = sync_customer 1 customer_100 two_tenant_store"
proof -
  have nf: "faults two_tenant_store = []" by (simp add: two_tenant_store_def)
  from customer_fallback_refines_upsert[OF wf_two_tenant_store nf, of 2 "''100''" "sync_customer_data customer_100"]
       customer_fallback_refines_upsert[OF wf_two_tenant_store nf, of 1 _ _ customer_100]
  show ?thesis by blast
qed



section \<open>The backfill pass\<close>

text \<open>What the backfill pass selects: rows of the tenant with no email or no first name, at most 1000.\<close>

lemma backfill_selection:
  assumes "customer_findMany_missing t 1000 s = (Inr missing, s1)"
  shows "length missing \<le> 1000
       \<and> missing = take 1000 (filter (\<lambda>c. c_tenantId c = t \<and> (c_firstName c = None \<or> c_email c = None)) (customers s))
       \<and> list_all (\<lambda>c. c \<in> set (customers s) \<and> c_tenantId c = t \<and> (c_firstName c = None \<or> c_email c = None)) missing"
proof (rule storage_call_cases[of s])
  fix b fs assume sc: "storage_call s = (b, s\<lparr>faults := fs\<rparr>)"
  with assms have m: "missing = take 1000 (filter (\<lambda>c. c_tenantId c = t \<and> (c_firstName c = None \<or> c_email c = None)) (customers s))"
    by (auto simp: customer_findMany_missing_def split: bool.splits)
  have "set missing \<subseteq> set (filter (\<lambda>c. c_tenantId c = t \<and> (c_firstName c = None \<or> c_email c = None)) (customers s))"
    unfolding m by (rule set_take_subset)
  then show ?thesis using m by (auto simp: list_all_iff)
qed

lemma sync_collections_backfilled:
  "fst (sync_collections t client api s) = Inr counts \<Longrightarrow> sc_backfilled counts = 0"
  by (auto simp: sync_collections_def backfill_pass_def backfill_all_skip
      split: sum.splits prod.splits)

lemma fullSync_backfilled:
  "fst (fullSync t api s) = Inr counts \<Longrightarrow> sc_backfilled counts = 0"
  by (auto simp: fullSync_def sync_collections_backfilled split: sum.splits prod.splits option.splits if_splits)

text \<open>
  C7 fails on the code. The client that \<open>fullSync\<close> hands to \<open>fetchShopifyCustomerById\<close>
  is the plain object of \<open>makeClient\<close>, which has no \<open>get\<close>: the call throws, the
  \<open>catch\<close> returns \<open>null\<close>, and every selected row is skipped. No request for a single
  customer is made, no row is updated and the count of backfilled rows is 0; so it is
  for the customer \<open>78\<close> of the example, whose email is missing.
\<close>

theorem backfill_never_fetches:
  "fetchShopifyCustomerById (makeClient shop accessToken) shopifyCustomerId = None
   \<and> backfill_row (makeClient shop accessToken) row s = (False, s)
   \<and> (case fst (fullSync t api s) of Inr counts \<Rightarrow> sc_backfilled counts = 0 | Inl e \<Rightarrow> True)
   \<and> fullSync 1 empty_api linked_order_store
      = (Inr \<lparr>sc_products = 0, sc_customers = 0, sc_orders = 0, sc_backfilled = 0\<rparr>, linked_order_store)"
proof -
  have nx: "extractNextPageInfo None = None" by (simp add: extractNextPageInfo_def)
  have pg: "paginateAll path extra [empty_page] = (Inr [], [mk_request path extra None])" for path extra
    by (simp add: paginateAll_def empty_page_def items_of_def nx Let_def)
  have run: "fullSync 1 empty_api linked_order_store
      = (Inr \<lparr>sc_products = 0, sc_customers = 0, sc_orders = 0, sc_backfilled = 0\<rparr>, linked_order_store)"
    by (simp add: fullSync_def tenant_findUnique_id_def storage_call_def linked_order_store_def
        sync_collections_def fetchAllProducts_def fetchAllCustomers_def fetchAllOrders_def
        empty_api_def pg backfill_pass_def customer_findMany_missing_def backfill_all_skip
        backfill_row_skip)
  show ?thesis
    using fullSync_backfilled[of t api s] run
    by (auto simp: fetchShopifyCustomerById_None backfill_row_skip split: sum.splits)
qed

section \<open>Errors in the dispatcher\<close>

text \<open>Once the tenant lookup has returned, \<open>processWebhookPayload\<close> raises nothing.\<close>

lemma processWebhookPayload_swallows:
  assumes "tenant_findUnique_shop shop s = (Inr found, s0)"
  shows "fst (processWebhookPayload topic shop payload s) = Inr ()"
  using assms by (simp add: processWebhookPayload_def split: option.splits)

lemma webhook_secret_default:
  "webhook_secret d (find (\<lambda>t. t_shop t = ''a.myshopify.com'') (tenants two_tenant_store)) = d"
  by (simp add: webhook_secret_def two_tenant_store_def or_default_def)

text \<open>
  C9 fails on the code. \<open>processWebhookPayload\<close> looks the tenant up before its \<open>try\<close>:
  when that storage call fails, the error reaches the caller, and the endpoint, whose
  own lookup and signature check have passed, answers 500.
\<close>

theorem tenant_lookup_error_propagates:
  "fst (processWebhookPayload ''orders/create'' ''a.myshopify.com'' order_5001
          (two_tenant_store\<lparr>faults := [True]\<rparr>)) = Inl StorageError
   \<and> fst (webhook_endpoint ''whsec_default''
            (signed_webhook ''whsec_default'' ''a.myshopify.com'' ''orders/create'' order_5001)
            (two_tenant_store\<lparr>faults := [False, True]\<rparr>))
      = \<lparr>status = 500, body = ''error''\<rparr>"
proof -
  have 1: "processWebhookPayload topic shop payload (s\<lparr>faults := True # fs\<rparr>)
      = (Inl StorageError, s\<lparr>faults := fs\<rparr>)" for topic shop payload s fs
    by (simp add: processWebhookPayload_def tenant_findUnique_shop_def storage_call_def)
  have 2: "tenant_findUnique_shop shop (s\<lparr>faults := False # fs\<rparr>)
      = (Inr (find (\<lambda>t. t_shop t = shop) (tenants s)), s\<lparr>faults := fs\<rparr>)" for shop s fs
    by (simp add: tenant_findUnique_shop_def storage_call_def)
  show ?thesis
    by (simp add: 1 webhook_endpoint_def signed_webhook_def 2 webhook_secret_default
        verifyHmac_Buffer_iff)
qed

section \<open>The endpoint without raw bytes, and for an unknown shop\<close>

text \<open>
  C3, as stated, fails for \<open>verifyHmac\<close>: handed a value that is neither a buffer nor a
  string, it signs the serialisation of the value, and returns true for a signature of
  that text.
\<close>

theorem verifyHmac_stringify_counterexample:
  "verifyHmac (Other (Some ''{}'')) (base64 (hmac_sha256 ''whsec'' ''{}'')) ''whsec''"
  by (simp add: verifyHmac_Other_iff)

text \<open>
  C3, amended. The endpoint fails closed: a request whose raw body is unavailable is
  answered 400 whatever its signature, and nothing is processed or stored, so the
  endpoint never reaches the serialisation of the parsed payload. \<open>verifyHmac\<close> itself,
  when it is handed a value that is neither a buffer nor a string, compares the
  signature with the digest of the value's serialisation, and returns false when the
  value cannot be serialised.
\<close>

theorem missing_raw_body_fails_closed:
  "(wr_rawBody req = None \<longrightarrow>
      status (fst (webhook_endpoint default_secret req s)) = 400
      \<and> snd (webhook_endpoint default_secret req s) = s)
   \<and> verifyHmac (Other (Some serialised)) hmacHeader secret
       = (hmacHeader = base64 (hmac_sha256 secret serialised))
   \<and> \<not> verifyHmac (Other None) hmacHeader secret"
  by (simp add: webhook_endpoint_def verifyHmac_Other_iff) (simp add: verifyHmac_def)

theorem missing_raw_body_fails_closed_witness:
  "status (fst (webhook_endpoint ''whsec_default''
             ((signed_webhook ''whsec_default'' ''a.myshopify.com'' ''orders/create'' order_5001)
                \<lparr>wr_rawBody := None\<rparr>) two_tenant_store)) = 400
   \<and> snd (webhook_endpoint ''whsec_default''
             ((signed_webhook ''whsec_default'' ''a.myshopify.com'' ''orders/create'' order_5001)
                \<lparr>wr_rawBody := None\<rparr>) two_tenant_store) = two_tenant_store"
proof -
  have "wr_rawBody ((signed_webhook ''whsec_default'' ''a.myshopify.com'' ''orders/create'' order_5001)
                \<lparr>wr_rawBody := None\<rparr>) = None" by simp
  with missing_raw_body_fails_closed[of
      "(signed_webhook ''whsec_default'' ''a.myshopify.com'' ''orders/create'' order_5001)\<lparr>wr_rawBody := None\<rparr>"
      "''whsec_default''" two_tenant_store]
  show ?thesis by blast
qed

text \<open>
  C6, as stated, fails: for a shop domain that no tenant has, the endpoint still checks
  the signature, against the default secret, and a request signed with that secret is
  answered 200.
\<close>

theorem unknown_shop_counterexample:
  "find (\<lambda>t. t_shop t = ''unknown.myshopify.com'') (tenants two_tenant_store) = None
   \<and> fst (webhook_endpoint ''whsec_default''
            (signed_webhook ''whsec_default'' ''unknown.myshopify.com'' ''orders/create'' order_5001)
            two_tenant_store)
      = \<lparr>status = 200, body = ''ok''\<rparr>"
  by (simp add: webhook_endpoint_def signed_webhook_def tenant_findUnique_shop_def
      processWebhookPayload_def storage_call_def two_tenant_store_def webhook_secret_def
      verifyHmac_Buffer_iff)

text \<open>
  C6, amended. For a shop domain that no tenant has (and a request with a shop header
  and a raw body, no storage call failing), the endpoint checks the signature against
  the process-wide default secret: a request that is not signed with it is rejected
  with 401, one that is signed with it is answered 200; either way the dispatcher finds
  no tenant and nothing is stored.
\<close>

theorem unknown_shop_uses_default_secret:
  assumes "find (\<lambda>t. t_shop t = wr_shop req) (tenants s) = None"
    and "wr_shop req \<noteq> []" and "wr_rawBody req = Some raw" and "faults s = []"
  shows "webhook_endpoint default_secret req s
       = (if wr_hmac req = base64 (hmac_sha256 default_secret raw)
          then \<lparr>status = 200, body = ''ok''\<rparr>
          else \<lparr>status = 401, body = ''invalid hmac''\<rparr>, s)"
  using assms
  by (simp add: webhook_endpoint_def tenant_findUnique_shop_no_faults processWebhookPayload_def
      webhook_secret_def verifyHmac_Buffer_iff)

theorem unknown_shop_uses_default_secret_witness:
  "webhook_endpoint ''whsec_default''
     ((signed_webhook ''whsec_default'' ''unknown.myshopify.com'' ''orders/create'' order_5001)
        \<lparr>wr_hmac := ''AAAA''\<rparr>) two_tenant_store
   = (\<lparr>status = 401, body = ''invalid hmac''\<rparr>, two_tenant_store)"
proof -
  let ?req = "(signed_webhook ''whsec_default'' ''unknown.myshopify.com'' ''orders/create'' order_5001)
        \<lparr>wr_hmac := ''AAAA''\<rparr>"
  have 1: "find (\<lambda>t. t_shop t = wr_shop ?req) (tenants two_tenant_store) = None"
    by (simp add: signed_webhook_def two_tenant_store_def)
  have 2: "wr_shop ?req \<noteq> []" by (simp add: signed_webhook_def)
  have 3: "wr_rawBody ?req = Some ''{}''" by (simp add: signed_webhook_def)
  have 4: "faults two_tenant_store = []" by (simp add: two_tenant_store_def)
  have 5: "wr_hmac ?req \<noteq> base64 (hmac_sha256 ''whsec_default'' ''{}'')"
  proof
    assume "wr_hmac ?req = base64 (hmac_sha256 ''whsec_default'' ''{}'')"
    then have "length (wr_hmac ?req) = 44" by (simp only: digest_text_length)
    then show False by simp
  qed
  from unknown_shop_uses_default_secret[OF 1 2 3 4, of "''whsec_default''"] 5
  show ?thesis by simp
qed


end
